theory Spec2Isabelle
  imports Complex_Main "HOL-Library.Word" "HOL-Library.AList" "HOL-Library.Log_Nat"
begin

text \<open>
  A model of the favicon generator's request handler, \<open>src/app/api/generate/route.ts\<close>:
  the corner mask \<open>applyRoundedCorners\<close>, the radius arithmetic in double precision, and the
  handler \<open>POST\<close> with the image, container and archive libraries as parameters. Definitions come first,
  in the order of the source; the properties follow.
\<close>

section \<open>Pixel buffers\<close>

text \<open>
  A Node \<open>Buffer\<close> is a sequence of bytes. An indexed store \<open>result[i] = v\<close> on it
  changes the byte when \<open>i\<close> is an index of the buffer and does nothing otherwise
  (typed arrays ignore stores outside their range).
\<close>

type_synonym byte = "8 word"
type_synonym buffer = "byte list"

definition buffer_set :: "buffer \<Rightarrow> int \<Rightarrow> byte \<Rightarrow> buffer" where
  "buffer_set b i v = (if 0 \<le> i \<and> i < int (length b) then b[nat i := v] else b)"

section \<open>applyRoundedCorners (route.ts, lines 304-367)\<close>

text \<open>
  The body of the two nested loops first computes the flag \<open>shouldBeTransparent\<close> with
  four consecutive \<open>if\<close> statements, one for each corner, each of which can only raise
  the flag. \<open>width\<close>, \<open>height\<close> and \<open>radius\<close> are integer-valued numbers.
\<close>

definition shouldBeTransparent :: "int \<Rightarrow> int \<Rightarrow> int \<Rightarrow> int \<Rightarrow> int \<Rightarrow> bool" where
  "shouldBeTransparent width height r x y =
     (let t0 = False;
          t1 = (if x < r \<and> y < r
                then (let dx = r - x; dy = r - y
                      in if dx * dx + dy * dy > r * r then True else t0)
                else t0);
          t2 = (if x \<ge> width - r \<and> y < r
                then (let dx = x - (width - r - 1); dy = r - y
                      in if dx * dx + dy * dy > r * r then True else t1)
                else t1);
          t3 = (if x < r \<and> y \<ge> height - r
                then (let dx = r - x; dy = y - (height - r - 1)
                      in if dx * dx + dy * dy > r * r then True else t2)
                else t2);
          t4 = (if x \<ge> width - r \<and> y \<ge> height - r
                then (let dx = x - (width - r - 1); dy = y - (height - r - 1)
                      in if dx * dx + dy * dy > r * r then True else t3)
                else t3)
      in t4)"

text \<open>The body of the inner loop: one pixel, at column \<open>x\<close> of row \<open>y\<close>.\<close>

definition pixel_body :: "int \<Rightarrow> int \<Rightarrow> int \<Rightarrow> int \<Rightarrow> int \<Rightarrow> buffer \<Rightarrow> buffer" where
  "pixel_body width height r y x result =
     (let idx = (y * width + x) * 4
      in if shouldBeTransparent width height r x y
         then buffer_set result (idx + 3) 0
         else result)"

text \<open>\<open>for (let x = 0; x < width; x++)\<close>, entered at column \<open>x\<close>.\<close>

function x_loop :: "int \<Rightarrow> int \<Rightarrow> int \<Rightarrow> int \<Rightarrow> int \<Rightarrow> buffer \<Rightarrow> buffer" where
  "x_loop width height r y x result =
     (if x < width
      then x_loop width height r y (x + 1) (pixel_body width height r y x result)
      else result)"
  by pat_completeness auto
termination
  by (relation "measure (\<lambda>(width, height, r, y, x, result). nat (width - x))") auto

declare x_loop.simps [simp del]

text \<open>\<open>for (let y = 0; y < height; y++)\<close>, entered at row \<open>y\<close>.\<close>

function y_loop :: "int \<Rightarrow> int \<Rightarrow> int \<Rightarrow> int \<Rightarrow> buffer \<Rightarrow> buffer" where
  "y_loop width height r y result =
     (if y < height
      then y_loop width height r (y + 1) (x_loop width height r y 0 result)
      else result)"
  by pat_completeness auto
termination
  by (relation "measure (\<lambda>(width, height, r, y, result). nat (height - y))") auto

declare y_loop.simps [simp del]

definition applyRoundedCorners :: "buffer \<Rightarrow> int \<Rightarrow> int \<Rightarrow> int \<Rightarrow> buffer" where
  "applyRoundedCorners data width height radius =
     (if radius = 0 then data
      else (let result = data; r = radius in y_loop width height r 0 result))"

section \<open>The corner test in the words of the specification\<close>

text \<open>
  The four corner squares and their local coordinates, as section 4.3 of the
  specification lists them.
\<close>

datatype corner = TopLeft | TopRight | BottomLeft | BottomRight

fun in_corner_square :: "int \<Rightarrow> int \<Rightarrow> int \<Rightarrow> corner \<Rightarrow> int \<Rightarrow> int \<Rightarrow> bool" where
  "in_corner_square width height r TopLeft x y = (x < r \<and> y < r)"
| "in_corner_square width height r TopRight x y = (x \<ge> width - r \<and> y < r)"
| "in_corner_square width height r BottomLeft x y = (x < r \<and> y \<ge> height - r)"
| "in_corner_square width height r BottomRight x y = (x \<ge> width - r \<and> y \<ge> height - r)"

fun corner_dx :: "int \<Rightarrow> int \<Rightarrow> corner \<Rightarrow> int \<Rightarrow> int" where
  "corner_dx width r TopLeft x = r - x"
| "corner_dx width r TopRight x = x - (width - r - 1)"
| "corner_dx width r BottomLeft x = r - x"
| "corner_dx width r BottomRight x = x - (width - r - 1)"

fun corner_dy :: "int \<Rightarrow> int \<Rightarrow> corner \<Rightarrow> int \<Rightarrow> int" where
  "corner_dy height r TopLeft y = r - y"
| "corner_dy height r TopRight y = r - y"
| "corner_dy height r BottomLeft y = y - (height - r - 1)"
| "corner_dy height r BottomRight y = y - (height - r - 1)"

definition corner_dist2 :: "int \<Rightarrow> int \<Rightarrow> int \<Rightarrow> corner \<Rightarrow> int \<Rightarrow> int \<Rightarrow> int" where
  "corner_dist2 width height r c x y =
     (corner_dx width r c x)\<^sup>2 + (corner_dy height r c y)\<^sup>2"

definition all_corners :: "corner list" where
  "all_corners = [TopLeft, TopRight, BottomLeft, BottomRight]"

text \<open>A pixel is cut away when some corner square holds it strictly outside the arc.\<close>

definition outside_rounded_rect :: "int \<Rightarrow> int \<Rightarrow> int \<Rightarrow> int \<Rightarrow> int \<Rightarrow> bool" where
  "outside_rounded_rect width height r x y =
     list_ex (\<lambda>c. in_corner_square width height r c x y
                 \<and> corner_dist2 width height r c x y > r\<^sup>2) all_corners"

text \<open>A pixel lies on the arc of a corner when its distance test is an exact tie.\<close>

definition on_corner_arc :: "int \<Rightarrow> int \<Rightarrow> int \<Rightarrow> int \<Rightarrow> int \<Rightarrow> bool" where
  "on_corner_arc width height r x y =
     list_ex (\<lambda>c. in_corner_square width height r c x y
                 \<and> corner_dist2 width height r c x y = r\<^sup>2) all_corners"

definition in_some_corner_square :: "int \<Rightarrow> int \<Rightarrow> int \<Rightarrow> int \<Rightarrow> int \<Rightarrow> bool" where
  "in_some_corner_square width height r x y =
     list_ex (\<lambda>c. in_corner_square width height r c x y) all_corners"

text \<open>The byte offset of the alpha sample of pixel \<open>(x, y)\<close> in an RGBA8 buffer.\<close>

definition alpha_index :: "int \<Rightarrow> int \<Rightarrow> int \<Rightarrow> nat" where
  "alpha_index width x y = nat ((y * width + x) * 4 + 3)"

section \<open>JavaScript numbers\<close>

text \<open>
  The value of \<open>Number(radiusStr)\<close> is any JavaScript number: not-a-number, an
  infinity, or a finite value. A finite value is the rational number it stands for; the
  two zeros of a double are one value here, and both are falsy.
\<close>

datatype jsnum = NaN | NegInf | Fin rat | PosInf

text \<open>\<open>a || b\<close> on numbers: a number is falsy when it is NaN or zero.\<close>

definition truthy :: "jsnum \<Rightarrow> bool" where
  "truthy n = (n \<noteq> NaN \<and> n \<noteq> Fin 0)"

definition js_or :: "jsnum \<Rightarrow> jsnum \<Rightarrow> jsnum" where
  "js_or a b = (if truthy a then a else b)"

fun Math_min :: "jsnum \<Rightarrow> jsnum \<Rightarrow> jsnum" where
  "Math_min NaN b = NaN"
| "Math_min a NaN = NaN"
| "Math_min NegInf b = NegInf"
| "Math_min a NegInf = NegInf"
| "Math_min PosInf b = b"
| "Math_min a PosInf = a"
| "Math_min (Fin a) (Fin b) = Fin (min a b)"

fun Math_max :: "jsnum \<Rightarrow> jsnum \<Rightarrow> jsnum" where
  "Math_max NaN b = NaN"
| "Math_max a NaN = NaN"
| "Math_max PosInf b = PosInf"
| "Math_max a PosInf = PosInf"
| "Math_max NegInf b = b"
| "Math_max a NegInf = a"
| "Math_max (Fin a) (Fin b) = Fin (max a b)"

text \<open>
  Division and multiplication give the double nearest to the exact result. \<open>to_double q\<close>
  is that double: \<open>q\<close> is rounded to a multiple of \<open>2 powi g\<close>, where \<open>g\<close> is 52 below
  the binary exponent of \<open>q\<close> (a significand of 53 bits) and never below -1074 (gradual
  underflow); a tie goes to the even multiple. Overflow is left out: no value of the
  handler comes near \<open>2 ^ 1024\<close>.
\<close>

text \<open>Rounding to the nearest integer, a tie to the even one.\<close>

definition rne :: "rat \<Rightarrow> int" where
  "rne q = (let f = \<lfloor>q\<rfloor>; r = q - of_int f
            in if r < 1 / 2 then f else if 1 / 2 < r then f + 1
               else if even f then f else f + 1)"

text \<open>The binary exponent \<open>e\<close> of \<open>x \<noteq> 0\<close>, with \<open>2 powi e \<le> \<bar>x\<bar> < 2 powi (e + 1)\<close>.\<close>

definition binade :: "rat \<Rightarrow> int" where
  "binade x = (let a = fst (quotient_of \<bar>x\<bar>); b = snd (quotient_of \<bar>x\<bar>);
                   d = bitlen a - bitlen b
               in if 2 powi d \<le> \<bar>x\<bar> then d else d - 1)"

definition to_double :: "rat \<Rightarrow> rat" where
  "to_double x =
     (if x = 0 then 0
      else (let g = max (binade x) (- 1022) - 52
            in of_int (rne (x / 2 powi g)) * 2 powi g))"

definition js_divide :: "rat \<Rightarrow> rat \<Rightarrow> rat" where
  "js_divide a b = to_double (a / b)"

definition js_times :: "rat \<Rightarrow> rat \<Rightarrow> rat" where
  "js_times a b = to_double (a * b)"

text \<open>\<open>Math.round\<close> rounds a tie towards plus infinity; \<open>Math.floor\<close> rounds down.\<close>

definition Math_round :: "rat \<Rightarrow> int" where
  "Math_round q = \<lfloor>q + 1 / 2\<rfloor>"

definition Math_floor :: "rat \<Rightarrow> int" where
  "Math_floor q = \<lfloor>q\<rfloor>"

text \<open>
  \<open>Number(v)\<close> for a form value \<open>v\<close>: \<open>formData.get\<close> gives \<open>null\<close> for an absent
  field and \<open>Number(null)\<close> is 0; the conversion of a string is the language's own and
  is a parameter here.
\<close>

definition Number :: "(string \<Rightarrow> jsnum) \<Rightarrow> string option \<Rightarrow> jsnum" where
  "Number StringToNumber v = (case v of None \<Rightarrow> Fin 0 | Some s \<Rightarrow> StringToNumber s)"

text \<open>The finite value of a number that is known to be finite.\<close>

fun fin_value :: "jsnum \<Rightarrow> rat" where
  "fin_value (Fin q) = q"
| "fin_value n = 0"

section \<open>The requested radius (route.ts, line 51)\<close>

text \<open>\<open>Math.max(0, Math.min(256, Number(radiusStr) || 40))\<close>, as a function of
  \<open>Number(radiusStr)\<close>.\<close>

definition requested_radius :: "jsnum \<Rightarrow> jsnum" where
  "requested_radius n = Math_max (Fin 0) (Math_min (Fin 256) (js_or n (Fin 40)))"

section \<open>The radius of one variant (route.ts, lines 80 and 119-120)\<close>

text \<open>\<open>metadata.width || 512\<close>: an undefined or zero dimension falls back to 512.\<close>

definition or_default :: "nat option \<Rightarrow> int \<Rightarrow> int" where
  "or_default v d = (case v of None \<Rightarrow> d | Some n \<Rightarrow> if n = 0 then d else int n)"

definition previewBaseSize :: "int \<Rightarrow> int \<Rightarrow> int" where
  "previewBaseSize originalWidth originalHeight = min (min originalWidth originalHeight) 192"

text \<open>\<open>Math.round(radius * (Math.min(targetWidth, targetHeight) / previewBaseSize))\<close>:
  the quotient is rounded to a double, then the product.\<close>

definition scaledRadius :: "rat \<Rightarrow> int \<Rightarrow> int \<Rightarrow> int \<Rightarrow> int" where
  "scaledRadius radius previewBase targetWidth targetHeight =
     Math_round
       (js_times radius (js_divide (of_int (min targetWidth targetHeight)) (of_int previewBase)))"

text \<open>\<open>infoWidth\<close> and \<open>infoHeight\<close> are the dimensions the resizer reports for the
  buffer it produced.\<close>

definition effectiveRadius :: "rat \<Rightarrow> int \<Rightarrow> int \<Rightarrow> int \<Rightarrow> int \<Rightarrow> int \<Rightarrow> int" where
  "effectiveRadius radius previewBase targetWidth targetHeight infoWidth infoHeight =
     min (scaledRadius radius previewBase targetWidth targetHeight)
         (Math_floor (js_divide (of_int (min infoWidth infoHeight)) 2))"

text \<open>
  The radius of section 3 of the specification, in its words and in exact arithmetic:
  the base radius scaled by the smaller target dimension over the reference size,
  rounded, then clamped to half of the smaller target dimension, rounded down.
\<close>

definition spec_effective_radius :: "rat \<Rightarrow> int \<Rightarrow> int \<Rightarrow> int \<Rightarrow> int" where
  "spec_effective_radius baseRadius referenceSize targetWidth targetHeight =
     min \<lfloor>baseRadius * of_int (min targetWidth targetHeight) / of_int referenceSize + 1 / 2\<rfloor>
         (min targetWidth targetHeight div 2)"

section \<open>The libraries\<close>

text \<open>
  A rejected promise or a thrown value is either an \<open>Error\<close> object with its message or
  some other value; every library call that can fail returns a sum with the thrown value
  on the left.
\<close>

datatype thrown = ErrorObject string | OtherValue

datatype fit = Cover | Contain | Inside

datatype kernel = Lanczos3

record resizeOptions =
  fit :: fit
  background :: "(nat \<times> nat \<times> nat \<times> nat) option"
  kernel :: "kernel option"

text \<open>The result of \<open>.raw().toBuffer({ resolveWithObject: true })\<close>.\<close>

record rawImage =
  raw_data :: buffer
  info_width :: int
  info_height :: int

text \<open>How the source image is opened: directly, or (for SVG) with a density and a
  resize into a box.\<close>

datatype opened = Direct | Rasterised nat int int fit

text \<open>The content of an archive entry. The two text files are kept as the values their
  templates are filled with.\<close>

datatype content =
    Binary buffer
  | ManifestJson string string string
  | ReadmeText string string string rat int

type_synonym archive = "(string \<times> content) list"

text \<open>
  The operations of sharp, to-ico and JSZip that the handler uses, and the string
  conversion of the language:
  \<^item> \<open>sharp_metadata input\<close> is \<open>sharp(input).metadata()\<close>, reduced to width and height;
  \<^item> \<open>sharp_png input how\<close> is \<open>image.ensureAlpha().png().toBuffer()\<close>;
  \<^item> \<open>sharp_resize_raw base w h opts\<close> is
    \<open>sharp(base).resize(w, h, opts).ensureAlpha().raw().toBuffer(...)\<close>;
  \<^item> \<open>sharp_resize_png base w h opts\<close> is \<open>sharp(base).resize(w, h, opts).png().toBuffer()\<close>;
  \<^item> \<open>sharp_raw_png buf w h\<close> is \<open>sharp(buf, { raw: ... }).png().toBuffer()\<close>.
\<close>

record libs =
  StringToNumber :: "string \<Rightarrow> jsnum"
  sharp_metadata :: "buffer \<Rightarrow> thrown + (nat option \<times> nat option)"
  sharp_png :: "buffer \<Rightarrow> opened \<Rightarrow> thrown + buffer"
  sharp_resize_raw :: "buffer \<Rightarrow> int \<Rightarrow> int \<Rightarrow> resizeOptions \<Rightarrow> thrown + rawImage"
  sharp_resize_png :: "buffer \<Rightarrow> int \<Rightarrow> int \<Rightarrow> resizeOptions \<Rightarrow> thrown + buffer"
  sharp_raw_png :: "buffer \<Rightarrow> int \<Rightarrow> int \<Rightarrow> thrown + buffer"
  toIco :: "buffer list \<Rightarrow> thrown + buffer"
  generateAsync :: "archive \<Rightarrow> thrown + buffer"

section \<open>The request and the response\<close>

record upload =
  file_size :: nat
  file_type :: string
  file_bytes :: buffer

record form =
  image_field :: "upload option"
  radius_field :: "string option"
  appName_field :: "string option"
  shortName_field :: "string option"
  themeColor_field :: "string option"

text \<open>The JSON error bodies; the three validation messages and the fallback message
  of the handler are named rather than spelt out.\<close>

datatype error_body =
    FileRequired
  | FileTooLarge
  | UnsupportedType
  | ErrorMessage string
  | GenerationFailed

datatype response = JsonResponse nat error_body | ZipResponse buffer

section \<open>The tables (route.ts, lines 6-26)\<close>

definition MAX_FILE_SIZE :: nat where
  "MAX_FILE_SIZE = 10 * 1024 * 1024"

definition PUBLIC_SIZES :: "(string \<times> int) list" where
  "PUBLIC_SIZES =
     [(''public/favicon-16x16.png'', 16),
      (''public/favicon-32x32.png'', 32),
      (''public/favicon-48x48.png'', 48),
      (''public/apple-touch-icon.png'', 180),
      (''public/android-chrome-192x192.png'', 192),
      (''public/android-chrome-512x512.png'', 512),
      (''public/opengraph-image.png'', 1200)]"

definition APP_SIZES :: "(string \<times> int) list" where
  "APP_SIZES =
     [(''src/app/icon.png'', 32),
      (''src/app/apple-icon.png'', 180)]"

definition ICO_SIZES :: "int list" where
  "ICO_SIZES = [16, 32, 48]"

definition validTypes :: "string list" where
  "validTypes = [''image/png'', ''image/jpeg'', ''image/jpg'', ''image/svg+xml'']"

section \<open>The handler (route.ts, lines 28-298)\<close>

text \<open>
  Two variables of the source have names that HOL uses already: \<open>size\<close> is \<open>sz\<close> here and
  \<open>zip\<close> is \<open>zipfile\<close>. An \<open>await\<close> whose promise rejects and a call that throws both
  leave the \<open>try\<close> block with the thrown value, which is the \<open>Inl\<close> branch of every \<open>case\<close>.
\<close>

text \<open>\<open>(formData.get(name) as string) || fallback\<close>: an absent or empty field is falsy.\<close>

definition str_or :: "string option \<Rightarrow> string \<Rightarrow> string" where
  "str_or v d = (case v of None \<Rightarrow> d | Some s \<Rightarrow> if s = [] then d else s)"

text \<open>\<open>s.replace(pat, rep)\<close> with a string pattern replaces its first occurrence.\<close>

fun replace_first :: "string \<Rightarrow> string \<Rightarrow> string \<Rightarrow> string" where
  "replace_first pat rep [] = (if pat = [] then rep else [])"
| "replace_first pat rep (c # cs) =
     (if take (length pat) (c # cs) = pat then rep @ drop (length pat) (c # cs)
      else c # replace_first pat rep cs)"

text \<open>
  \<open>zip.folder(name)\<close> gives a view of the archive under the prefix \<open>name/\<close>, and
  \<open>folder.file(filename, content)\<close> stores the entry \<open>name/filename\<close>, replacing an
  entry of that path.
\<close>

definition publicFolder :: string where
  "publicFolder = ''public/''"

definition appFolder :: string where
  "appFolder = ''src/app/''"

definition folder_file :: "string \<Rightarrow> string \<Rightarrow> content \<Rightarrow> archive \<Rightarrow> archive" where
  "folder_file dir filename c z = AList.update (dir @ filename) c z"

definition cover_options :: resizeOptions where
  "cover_options = \<lparr>fit = Cover, background = None, kernel = Some Lanczos3\<rparr>"

definition contain_options :: resizeOptions where
  "contain_options = \<lparr>fit = Contain, background = Some (0, 0, 0, 0), kernel = Some Lanczos3\<rparr>"

text \<open>
  \<open>resizeAndApplyRoundedCorners\<close> (lines 85-131). The source reads \<open>baseBuffer\<close>,
  \<open>radius\<close> and \<open>previewBaseSize\<close> from the enclosing scope; they are arguments here.
\<close>

definition resizeAndApplyRoundedCorners ::
  "libs \<Rightarrow> buffer \<Rightarrow> rat \<Rightarrow> int \<Rightarrow> int \<Rightarrow> bool \<Rightarrow> thrown + buffer" where
  "resizeAndApplyRoundedCorners L baseBuffer radius previewBase sz isOgp =
     (let targetWidth = (if isOgp then 1200 else sz);
          targetHeight = (if isOgp then 630 else sz);
          options = (if isOgp then contain_options else cover_options)
      in case sharp_resize_raw L baseBuffer targetWidth targetHeight options of
           Inl e \<Rightarrow> Inl e
         | Inr resized \<Rightarrow>
             (let rawData = raw_data resized;
                  r = effectiveRadius radius previewBase targetWidth targetHeight
                        (info_width resized) (info_height resized);
                  processedBuffer =
                    applyRoundedCorners rawData (info_width resized) (info_height resized) r
              in sharp_raw_png L processedBuffer (info_width resized) (info_height resized)))"

text \<open>The loop over \<open>Object.entries(PUBLIC_SIZES)\<close> (lines 134-153).\<close>

fun public_loop ::
  "libs \<Rightarrow> buffer \<Rightarrow> rat \<Rightarrow> int \<Rightarrow> (string \<times> int) list \<Rightarrow> archive \<Rightarrow> thrown + archive" where
  "public_loop L baseBuffer radius previewBase [] zipfile = Inr zipfile"
| "public_loop L baseBuffer radius previewBase ((filepath, sz) # rest) zipfile =
     (let filename = replace_first ''public/'' [] filepath;
          isOgp = (filename = ''opengraph-image.png'')
      in if isOgp
         then (case sharp_resize_png L baseBuffer 1200 630 contain_options of
                 Inl e \<Rightarrow> Inl e
               | Inr ogpImage \<Rightarrow>
                   public_loop L baseBuffer radius previewBase rest
                     (folder_file publicFolder filename (Binary ogpImage) zipfile))
         else (case resizeAndApplyRoundedCorners L baseBuffer radius previewBase sz False of
                 Inl e \<Rightarrow> Inl e
               | Inr resized \<Rightarrow>
                   public_loop L baseBuffer radius previewBase rest
                     (folder_file publicFolder filename (Binary resized) zipfile)))"

text \<open>The loop over \<open>Object.entries(APP_SIZES)\<close> (lines 156-160).\<close>

fun app_loop ::
  "libs \<Rightarrow> buffer \<Rightarrow> rat \<Rightarrow> int \<Rightarrow> (string \<times> int) list \<Rightarrow> archive \<Rightarrow> thrown + archive" where
  "app_loop L baseBuffer radius previewBase [] zipfile = Inr zipfile"
| "app_loop L baseBuffer radius previewBase ((filepath, sz) # rest) zipfile =
     (let filename = replace_first ''src/app/'' [] filepath
      in case resizeAndApplyRoundedCorners L baseBuffer radius previewBase sz False of
           Inl e \<Rightarrow> Inl e
         | Inr resized \<Rightarrow>
             app_loop L baseBuffer radius previewBase rest
               (folder_file appFolder filename (Binary resized) zipfile))"

text \<open>The loop over \<open>ICO_SIZES\<close> (lines 163-167).\<close>

fun ico_loop ::
  "libs \<Rightarrow> buffer \<Rightarrow> rat \<Rightarrow> int \<Rightarrow> int list \<Rightarrow> buffer list \<Rightarrow> thrown + buffer list" where
  "ico_loop L baseBuffer radius previewBase [] icoInputBuffers = Inr icoInputBuffers"
| "ico_loop L baseBuffer radius previewBase (sz # rest) icoInputBuffers =
     (case resizeAndApplyRoundedCorners L baseBuffer radius previewBase sz False of
        Inl e \<Rightarrow> Inl e
      | Inr resized \<Rightarrow>
          ico_loop L baseBuffer radius previewBase rest (icoInputBuffers @ [resized]))"

text \<open>The radius that the README reports (lines 197-198).\<close>

definition effectiveDisplayRadius :: "rat \<Rightarrow> int \<Rightarrow> int" where
  "effectiveDisplayRadius radius previewBase =
     (let displayRadius = Math_round (js_times radius (js_divide 512 (of_int previewBase)))
      in min displayRadius 256)"

text \<open>Lines 51-290: everything after validation.\<close>

definition generate ::
  "libs \<Rightarrow> upload \<Rightarrow> string option \<Rightarrow> string \<Rightarrow> string \<Rightarrow> string \<Rightarrow> thrown + response" where
  "generate L file radiusStr appName shortName themeColor =
     (let radius = fin_value (requested_radius (Number (StringToNumber L) radiusStr));
          inputBuffer = file_bytes file
      in case sharp_metadata L inputBuffer of
           Inl e \<Rightarrow> Inl e
         | Inr metadata \<Rightarrow>
      (let originalWidth = or_default (fst metadata) 512;
           originalHeight = or_default (snd metadata) 512;
           opened_image = (if file_type file = ''image/svg+xml''
                    then Rasterised 300 1024 1024 Inside else Direct)
       in case sharp_png L inputBuffer opened_image of
            Inl e \<Rightarrow> Inl e
          | Inr baseBuffer \<Rightarrow>
      (let zipfile = [];
           previewBase = previewBaseSize originalWidth originalHeight
       in case public_loop L baseBuffer radius previewBase PUBLIC_SIZES zipfile of
            Inl e \<Rightarrow> Inl e
          | Inr zipfile \<Rightarrow>
      (case app_loop L baseBuffer radius previewBase APP_SIZES zipfile of
            Inl e \<Rightarrow> Inl e
          | Inr zipfile \<Rightarrow>
      (case ico_loop L baseBuffer radius previewBase ICO_SIZES [] of
            Inl e \<Rightarrow> Inl e
          | Inr icoInputBuffers \<Rightarrow>
      (case toIco L icoInputBuffers of
            Inl e \<Rightarrow> Inl e
          | Inr icoBuffer \<Rightarrow>
      (let zipfile = folder_file publicFolder ''favicon.ico'' (Binary icoBuffer) zipfile;
           zipfile = folder_file appFolder ''favicon.ico'' (Binary icoBuffer) zipfile;
           zipfile = folder_file publicFolder ''site.webmanifest''
                   (ManifestJson appName shortName themeColor) zipfile;
           zipfile = AList.update ''README.txt''
                   (ReadmeText appName shortName themeColor radius
                      (effectiveDisplayRadius radius previewBase)) zipfile
       in case generateAsync L zipfile of
            Inl e \<Rightarrow> Inl e
          | Inr zipBuffer \<Rightarrow> Inr (ZipResponse zipBuffer))))))))"

text \<open>Lines 30-49: the form fields and the validation.\<close>

definition POST_try :: "libs \<Rightarrow> form \<Rightarrow> thrown + response" where
  "POST_try L formData =
     (let file = image_field formData;
          radiusStr = radius_field formData;
          appName = str_or (appName_field formData) ''My App'';
          shortName = str_or (shortName_field formData) ''App'';
          themeColor = str_or (themeColor_field formData) ''#6366f1''
      in case file of
           None \<Rightarrow> Inr (JsonResponse 400 FileRequired)
         | Some f \<Rightarrow>
             if file_size f > MAX_FILE_SIZE then Inr (JsonResponse 400 FileTooLarge)
             else if file_type f \<notin> set validTypes then Inr (JsonResponse 400 UnsupportedType)
             else generate L f radiusStr appName shortName themeColor)"

text \<open>
  The handler: the \<open>try\<close> block and its \<open>catch\<close> (lines 291-297), whose body is
  \<open>error instanceof Error ? error.message : fallback\<close>. The request either yields
  its form data or \<open>request.formData()\<close> throws.
\<close>

definition catch_body :: "thrown \<Rightarrow> error_body" where
  "catch_body err = (case err of ErrorObject m \<Rightarrow> ErrorMessage m | OtherValue \<Rightarrow> GenerationFailed)"

definition POST :: "libs \<Rightarrow> thrown + form \<Rightarrow> response" where
  "POST L request =
     (case (case request of Inl e \<Rightarrow> Inl e | Inr formData \<Rightarrow> POST_try L formData) of
        Inl err \<Rightarrow> JsonResponse 500 (catch_body err)
      | Inr response \<Rightarrow> response)"

section \<open>The names of the archive and sample inputs\<close>

text \<open>The paths of a complete archive, in the order the handler stores them.\<close>

definition all_entry_names :: "string list" where
  "all_entry_names =
     [''public/favicon-16x16.png'',
      ''public/favicon-32x32.png'',
      ''public/favicon-48x48.png'',
      ''public/apple-touch-icon.png'',
      ''public/android-chrome-192x192.png'',
      ''public/android-chrome-512x512.png'',
      ''public/opengraph-image.png'',
      ''src/app/icon.png'',
      ''src/app/apple-icon.png'',
      ''public/favicon.ico'',
      ''src/app/favicon.ico'',
      ''public/site.webmanifest'',
      ''README.txt'']"

text \<open>A complete archive, from the seven encoded images of \<open>PUBLIC_SIZES\<close>, the
  container and the two texts; \<open>icon.png\<close> and \<open>apple-icon.png\<close> repeat the 32 and 180
  pixel images.\<close>

definition complete_archive ::
  "buffer \<Rightarrow> buffer \<Rightarrow> buffer \<Rightarrow> buffer \<Rightarrow> buffer \<Rightarrow> buffer \<Rightarrow> buffer \<Rightarrow> buffer
   \<Rightarrow> content \<Rightarrow> content \<Rightarrow> archive" where
  "complete_archive p16 p32 p48 p180 p192 p512 ogp ico manifest readme =
     [(''public/favicon-16x16.png'', Binary p16),
      (''public/favicon-32x32.png'', Binary p32),
      (''public/favicon-48x48.png'', Binary p48),
      (''public/apple-touch-icon.png'', Binary p180),
      (''public/android-chrome-192x192.png'', Binary p192),
      (''public/android-chrome-512x512.png'', Binary p512),
      (''public/opengraph-image.png'', Binary ogp),
      (''src/app/icon.png'', Binary p32),
      (''src/app/apple-icon.png'', Binary p180),
      (''public/favicon.ico'', Binary ico),
      (''src/app/favicon.ico'', Binary ico),
      (''public/site.webmanifest'', manifest),
      (''README.txt'', readme)]"

text \<open>How the handler opens the upload (lines 58 and 64-66).\<close>

definition opened_as :: "upload \<Rightarrow> opened" where
  "opened_as f =
     (if file_type f = ''image/svg+xml'' then Rasterised 300 1024 1024 Inside else Direct)"

text \<open>The radius and the reference size that the handler works with.\<close>

definition handler_radius :: "libs \<Rightarrow> form \<Rightarrow> rat" where
  "handler_radius L formData =
     fin_value (requested_radius (Number (StringToNumber L) (radius_field formData)))"

definition reference_size :: "nat option \<times> nat option \<Rightarrow> int" where
  "reference_size m = previewBaseSize (or_default (fst m) 512) (or_default (snd m) 512)"

section \<open>The stages of a request\<close>

text \<open>One stage after another: the first thrown value ends the run.\<close>

definition and_then :: "thrown + 'a \<Rightarrow> ('a \<Rightarrow> thrown + 'b) \<Rightarrow> thrown + 'b" where
  "and_then r k = (case r of Inl e \<Rightarrow> Inl e | Inr x \<Rightarrow> k x)"

text \<open>
  A square variant, stage by stage: resize with fit \<open>cover\<close>, mask with the effective radius
  for the dimensions the resizer reports, encode.
\<close>

definition square_variant :: "libs \<Rightarrow> buffer \<Rightarrow> rat \<Rightarrow> int \<Rightarrow> int \<Rightarrow> thrown + buffer" where
  "square_variant L base radius pb sz =
     and_then
       (sharp_resize_raw L base sz sz
          \<lparr>fit = Cover, background = None, kernel = Some Lanczos3\<rparr>)
       (\<lambda>resized.
          sharp_raw_png L
            (applyRoundedCorners (raw_data resized) (info_width resized) (info_height resized)
               (effectiveRadius radius pb sz sz (info_width resized) (info_height resized)))
            (info_width resized) (info_height resized))"

text \<open>The social preview: resize with fit \<open>contain\<close> on a transparent background, encoded by
  the resizer itself; no mask.\<close>

definition preview_variant :: "libs \<Rightarrow> buffer \<Rightarrow> thrown + buffer" where
  "preview_variant L base =
     sharp_resize_png L base 1200 630
       \<lparr>fit = Contain, background = Some (0, 0, 0, 0), kernel = Some Lanczos3\<rparr>"

text \<open>
  All stages of a valid request in the order of their first use: decoding, the six
  square variants, the preview, the container from the 16, 32 and 48 pixel variants, and
  the archive of all thirteen entries.
\<close>

definition handler_stages :: "libs \<Rightarrow> form \<Rightarrow> upload \<Rightarrow> thrown + buffer" where
  "handler_stages L formData f =
     and_then (sharp_metadata L (file_bytes f)) (\<lambda>m.
     and_then (sharp_png L (file_bytes f) (opened_as f)) (\<lambda>base.
     and_then (square_variant L base (handler_radius L formData) (reference_size m) 16) (\<lambda>p16.
     and_then (square_variant L base (handler_radius L formData) (reference_size m) 32) (\<lambda>p32.
     and_then (square_variant L base (handler_radius L formData) (reference_size m) 48) (\<lambda>p48.
     and_then (square_variant L base (handler_radius L formData) (reference_size m) 180) (\<lambda>p180.
     and_then (square_variant L base (handler_radius L formData) (reference_size m) 192) (\<lambda>p192.
     and_then (square_variant L base (handler_radius L formData) (reference_size m) 512) (\<lambda>p512.
     and_then (preview_variant L base) (\<lambda>ogp.
     and_then (toIco L [p16, p32, p48]) (\<lambda>ico.
     generateAsync L
       (complete_archive p16 p32 p48 p180 p192 p512 ogp ico
          (ManifestJson (str_or (appName_field formData) ''My App'')
             (str_or (shortName_field formData) ''App'')
             (str_or (themeColor_field formData) ''#6366f1''))
          (ReadmeText (str_or (appName_field formData) ''My App'')
             (str_or (shortName_field formData) ''App'')
             (str_or (themeColor_field formData) ''#6366f1'')
             (handler_radius L formData)
             (effectiveDisplayRadius (handler_radius L formData) (reference_size m))))))))))))))"

text \<open>The square variants: every entry of the two tables but the social preview.\<close>

definition square_variants :: "(string \<times> int) list" where
  "square_variants = butlast PUBLIC_SIZES @ APP_SIZES"

text \<open>A 3 by 3 image whose 36 bytes are all different.\<close>

definition sample_3x3 :: buffer where
  "sample_3x3 = map of_nat [1 ..< 37]"

text \<open>
  Libraries for examples: every call succeeds, the source is reported as 512 by 512,
  the resizer answers with a single opaque white pixel, the image encoders pass their
  input through, and the archive is reduced to the four bytes of its signature.
\<close>

definition sample_libs :: libs where
  "sample_libs =
     \<lparr>StringToNumber = (\<lambda>s. if s = ''0'' then Fin 0 else if s = ''40'' then Fin 40 else NaN),
      sharp_metadata = (\<lambda>input. Inr (Some 512, Some 512)),
      sharp_png = (\<lambda>input how. Inr input),
      sharp_resize_raw = (\<lambda>base w h opts.
         Inr \<lparr>raw_data = [255, 255, 255, 255], info_width = 1, info_height = 1\<rparr>),
      sharp_resize_png = (\<lambda>base w h opts. Inr [0, 0, 0, 0]),
      sharp_raw_png = (\<lambda>buf w h. Inr buf),
      toIco = (\<lambda>bufs. Inr (concat bufs)),
      generateAsync = (\<lambda>entries. Inr [80, 75, 3, 4])\<rparr>"

text \<open>The same libraries, except that the source does not decode.\<close>

definition corrupt_libs :: libs where
  "corrupt_libs =
     sample_libs\<lparr>sharp_metadata := (\<lambda>input. Inl (ErrorObject ''unsupported image format''))\<rparr>"

text \<open>
  Libraries whose resizer answers every request with an opaque white image of 4 by 4
  pixels, whose string conversion knows the string \<open>12\<close>, and whose archive is the
  concatenation of its binary entries, so that the response shows the bytes of every
  variant.
\<close>

definition white_tile :: buffer where
  "white_tile = replicate 64 255"

definition entry_bytes :: "string \<times> content \<Rightarrow> buffer" where
  "entry_bytes entry = (case snd entry of Binary b \<Rightarrow> b | _ \<Rightarrow> [])"

definition tile_libs :: libs where
  "tile_libs =
     sample_libs
       \<lparr>StringToNumber := (\<lambda>s. if s = ''12'' then Fin 12 else NaN),
        sharp_resize_raw := (\<lambda>base w h opts.
          Inr \<lparr>raw_data = white_tile, info_width = 4, info_height = 4\<rparr>),
        generateAsync := (\<lambda>entries. Inr (concat (map entry_bytes entries)))\<rparr>"

text \<open>The white tile with radius 1: the four corner pixels lose their alpha.\<close>

definition corner_tile :: buffer where
  "corner_tile =
     [255, 255, 255, 0,  255, 255, 255, 255,  255, 255, 255, 255,  255, 255, 255, 0,
      255, 255, 255, 255,  255, 255, 255, 255,  255, 255, 255, 255,  255, 255, 255, 255,
      255, 255, 255, 255,  255, 255, 255, 255,  255, 255, 255, 255,  255, 255, 255, 255,
      255, 255, 255, 0,  255, 255, 255, 255,  255, 255, 255, 255,  255, 255, 255, 0]"

text \<open>The white tile with radius 2: only the four centre pixels keep their alpha.\<close>

definition masked_tile :: buffer where
  "masked_tile =
     [255, 255, 255, 0,  255, 255, 255, 0,  255, 255, 255, 0,  255, 255, 255, 0,
      255, 255, 255, 0,  255, 255, 255, 255,  255, 255, 255, 255,  255, 255, 255, 0,
      255, 255, 255, 0,  255, 255, 255, 255,  255, 255, 255, 255,  255, 255, 255, 0,
      255, 255, 255, 0,  255, 255, 255, 0,  255, 255, 255, 0,  255, 255, 255, 0]"

text \<open>
  What these libraries answer to a valid request with radius 12 for a source of 512 by
  512: the scaled radius of the 16 pixel variant is 1, and every larger variant is clamped
  to 2, half of the tile. The entries follow in the order of the archive: the six square
  variants of \<open>public/\<close>, the preview, the two icons of \<open>src/app/\<close>, and the container
  of the 16, 32 and 48 pixel variants under both of its names.
\<close>

definition tile_response :: buffer where
  "tile_response =
     concat
       [corner_tile, masked_tile, masked_tile, masked_tile, masked_tile, masked_tile,
        [0, 0, 0, 0],
        masked_tile, masked_tile,
        concat [corner_tile, masked_tile, masked_tile],
        concat [corner_tile, masked_tile, masked_tile]]"

text \<open>The same libraries with a container encoder that throws.\<close>

definition no_ico_libs :: libs where
  "no_ico_libs = tile_libs\<lparr>toIco := (\<lambda>bufs. Inl (ErrorObject ''Invalid image buffer''))\<rparr>"

text \<open>The same libraries with a resizer that throws something that is not an
  \<open>Error\<close> when asked for 48 pixels.\<close>

definition no_resize_libs :: libs where
  "no_resize_libs =
     tile_libs\<lparr>sharp_resize_raw := (\<lambda>base w h opts.
        if w = 48 then Inl OtherValue
        else Inr \<lparr>raw_data = white_tile, info_width = 4, info_height = 4\<rparr>)\<rparr>"

definition sample_form :: "string \<Rightarrow> nat \<Rightarrow> string option \<Rightarrow> form" where
  "sample_form mime len radiusStr =
     \<lparr>image_field = Some \<lparr>file_size = len, file_type = mime, file_bytes = [1, 2, 3]\<rparr>,
      radius_field = radiusStr,
      appName_field = None,
      shortName_field = None,
      themeColor_field = None\<rparr>"

section \<open>What the loops compute\<close>

lemma shouldBeTransparent_iff:
  "shouldBeTransparent width height r x y = outside_rounded_rect width height r x y"
  by (auto simp: shouldBeTransparent_def outside_rounded_rect_def all_corners_def
      corner_dist2_def power2_eq_square Let_def)

lemma length_buffer_set [simp]: "length (buffer_set b i v) = length b"
  by (simp add: buffer_set_def)

lemma nth_buffer_set:
  "j < length b \<Longrightarrow> buffer_set b i v ! j = (if int j = i then v else b ! j)"
  by (auto simp: buffer_set_def nth_list_update)

lemma length_pixel_body [simp]: "length (pixel_body width height r y x b) = length b"
  by (simp add: pixel_body_def Let_def)

lemma nth_pixel_body:
  "j < length b \<Longrightarrow>
   pixel_body width height r y x b ! j =
     (if int j = (y * width + x) * 4 + 3 \<and> shouldBeTransparent width height r x y
      then 0 else b ! j)"
  by (simp add: pixel_body_def Let_def nth_buffer_set)

lemma if_zero_twice:
  "(if C then z else (if B then z else r)) = (if B \<or> C then z else r)"
  by simp

lemma length_x_loop [simp]: "length (x_loop width height r y x b) = length b"
proof (induction width height r y x b rule: x_loop.induct)
  case (1 width height r y x result)
  show ?case
  proof (cases "x < width")
    case True
    with "1" show ?thesis by (subst x_loop.simps) simp
  next
    case False
    then show ?thesis by (subst x_loop.simps) simp
  qed
qed

lemma nth_x_loop:
  "j < length b \<Longrightarrow>
   x_loop width height r y x b ! j =
     (if \<exists>x'. x \<le> x' \<and> x' < width \<and> int j = (y * width + x') * 4 + 3
              \<and> shouldBeTransparent width height r x' y
      then 0 else b ! j)"
proof (induction width height r y x b rule: x_loop.induct)
  case (1 width height r y x result)
  let ?hit = "\<lambda>x'. x' < width \<and> int j = (y * width + x') * 4 + 3
                  \<and> shouldBeTransparent width height r x' y"
  show ?case
  proof (cases "x < width")
    case False
    then show ?thesis by (subst x_loop.simps) auto
  next
    case True
    have split: "(\<exists>x'. x \<le> x' \<and> ?hit x') = (?hit x \<or> (\<exists>x'. x + 1 \<le> x' \<and> ?hit x'))"
      (is "?A = (?B \<or> ?C)")
    proof
      assume ?A
      then obtain x' where x': "x \<le> x'" "?hit x'" by blast
      show "?B \<or> ?C"
      proof (cases "x' = x")
        case True
        with x' show ?thesis by blast
      next
        case False
        with x' have "x + 1 \<le> x'" by simp
        with x' show ?thesis by blast
      qed
    next
      assume "?B \<or> ?C"
      then show ?A
      proof
        assume ?B
        then show ?A by (intro exI [of _ x]) simp
      next
        assume ?C
        then obtain x' where "x + 1 \<le> x'" "?hit x'" by blast
        then show ?A by (intro exI [of _ x']) simp
      qed
    qed
    have body: "pixel_body width height r y x result ! j = (if ?hit x then 0 else result ! j)"
      using True "1.prems" by (simp add: nth_pixel_body)
    have "x_loop width height r y x result ! j =
          x_loop width height r y (x + 1) (pixel_body width height r y x result) ! j"
      using True by (subst x_loop.simps) simp
    also have "\<dots> = (if \<exists>x'. x + 1 \<le> x' \<and> ?hit x'
                     then 0 else pixel_body width height r y x result ! j)"
      using "1.IH" [OF True] "1.prems" by simp
    also have "\<dots> = (if (?hit x \<or> (\<exists>x'. x + 1 \<le> x' \<and> ?hit x')) then 0 else result ! j)"
      unfolding body by (rule if_zero_twice)
    finally show ?thesis unfolding split .
  qed
qed

lemma length_y_loop [simp]: "length (y_loop width height r y b) = length b"
proof (induction width height r y b rule: y_loop.induct)
  case (1 width height r y result)
  show ?case
  proof (cases "y < height")
    case True
    with "1" show ?thesis by (subst y_loop.simps) simp
  next
    case False
    then show ?thesis by (subst y_loop.simps) simp
  qed
qed

lemma nth_y_loop:
  "j < length b \<Longrightarrow>
   y_loop width height r y b ! j =
     (if \<exists>y'. y \<le> y' \<and> y' < height \<and> (\<exists>x'. 0 \<le> x' \<and> x' < width
                 \<and> int j = (y' * width + x') * 4 + 3
                 \<and> shouldBeTransparent width height r x' y')
      then 0 else b ! j)"
proof (induction width height r y b rule: y_loop.induct)
  case (1 width height r y result)
  let ?hit = "\<lambda>y'. y' < height \<and> (\<exists>x'. 0 \<le> x' \<and> x' < width
                   \<and> int j = (y' * width + x') * 4 + 3
                   \<and> shouldBeTransparent width height r x' y')"
  show ?case
  proof (cases "y < height")
    case False
    then show ?thesis by (subst y_loop.simps) auto
  next
    case True
    have split: "(\<exists>y'. y \<le> y' \<and> ?hit y') = (?hit y \<or> (\<exists>y'. y + 1 \<le> y' \<and> ?hit y'))"
      (is "?A = (?B \<or> ?C)")
    proof
      assume ?A
      then obtain y' where y': "y \<le> y'" "?hit y'" by blast
      show "?B \<or> ?C"
      proof (cases "y' = y")
        case True
        with y' show ?thesis by blast
      next
        case False
        with y' have "y + 1 \<le> y'" by simp
        with y' show ?thesis by blast
      qed
    next
      assume "?B \<or> ?C"
      then show ?A
      proof
        assume ?B
        then show ?A by (intro exI [of _ y]) simp
      next
        assume ?C
        then obtain y' where "y + 1 \<le> y'" "?hit y'" by blast
        then show ?A by (intro exI [of _ y']) simp
      qed
    qed
    have row: "x_loop width height r y 0 result ! j = (if ?hit y then 0 else result ! j)"
      using True "1.prems" by (simp add: nth_x_loop)
    have "y_loop width height r y result ! j =
          y_loop width height r (y + 1) (x_loop width height r y 0 result) ! j"
      using True by (subst y_loop.simps) simp
    also have "\<dots> = (if \<exists>y'. y + 1 \<le> y' \<and> ?hit y'
                     then 0 else x_loop width height r y 0 result ! j)"
      using "1.IH" [OF True] "1.prems" by simp
    also have "\<dots> = (if (?hit y \<or> (\<exists>y'. y + 1 \<le> y' \<and> ?hit y')) then 0 else result ! j)"
      unfolding row by (rule if_zero_twice)
    finally show ?thesis unfolding split .
  qed
qed

lemma length_applyRoundedCorners:
  "length (applyRoundedCorners data width height radius) = length data"
  by (simp add: applyRoundedCorners_def Let_def)

text \<open>
  Every byte of the result: the alpha samples of the pixels of the
  \<open>width\<close> by \<open>height\<close> grid that the corner test rejects are 0, all other bytes are
  those of the input.
\<close>

lemma nth_applyRoundedCorners:
  assumes "j < length data" and "radius \<noteq> 0"
  shows "applyRoundedCorners data width height radius ! j =
     (if \<exists>y. 0 \<le> y \<and> y < height \<and> (\<exists>x. 0 \<le> x \<and> x < width
               \<and> int j = (y * width + x) * 4 + 3
               \<and> outside_rounded_rect width height radius x y)
      then 0 else data ! j)"
  using assms
  by (simp add: applyRoundedCorners_def Let_def nth_y_loop shouldBeTransparent_iff)

text \<open>Two pixels of the grid with the same offset are the same pixel.\<close>

lemma pixel_offset_inj:
  fixes width :: int
  assumes "0 \<le> x" "x < width" "0 \<le> x'" "x' < width"
    and "(y' * width + x') * 4 + 3 = (y * width + x) * 4 + 3"
  shows "x' = x \<and> y' = y"
proof -
  from assms(5) have eq: "y' * width + x' = y * width + x" by simp
  have "(y' * width + x') mod width = x'" "(y * width + x) mod width = x"
    using assms(1-4) by simp_all
  with eq have x: "x' = x" by simp
  with eq have "y' * width = y * width" by simp
  moreover have "width \<noteq> 0" using assms(1,2) by simp
  ultimately show ?thesis using x by simp
qed

lemma alpha_applyRoundedCorners:
  assumes r: "radius \<noteq> 0"
    and x: "0 \<le> x" "x < width" and y: "0 \<le> y" "y < height"
    and len: "alpha_index width x y < length data"
  shows "applyRoundedCorners data width height radius ! alpha_index width x y =
     (if outside_rounded_rect width height radius x y then 0
      else data ! alpha_index width x y)"
proof -
  have nonneg: "0 \<le> (y * width + x) * 4 + 3"
    using x y by simp
  then have j: "int (alpha_index width x y) = (y * width + x) * 4 + 3"
    by (simp add: alpha_index_def)
  have "(\<exists>y'. 0 \<le> y' \<and> y' < height \<and> (\<exists>x'. 0 \<le> x' \<and> x' < width
           \<and> int (alpha_index width x y) = (y' * width + x') * 4 + 3
           \<and> outside_rounded_rect width height radius x' y'))
        = outside_rounded_rect width height radius x y"
    (is "?L = ?R")
  proof
    assume ?L
    then obtain y' x' where h: "0 \<le> x'" "x' < width"
      "(y' * width + x') * 4 + 3 = (y * width + x) * 4 + 3"
      "outside_rounded_rect width height radius x' y'"
      using j by auto
    from pixel_offset_inj [OF x h(1,2) h(3)] h(4) show ?R by simp
  next
    assume ?R
    then show ?L using x y j by blast
  qed
  then show ?thesis
    using nth_applyRoundedCorners [OF len r] by simp
qed

section \<open>Radius 0\<close>

text \<open>
  C3. For every buffer, width and height, \<open>applyRoundedCorners\<close> with radius 0 returns
  its input, byte for byte.
\<close>

theorem applyRoundedCorners_radius_zero:
  "applyRoundedCorners data width height 0 = data"
  by (simp add: applyRoundedCorners_def)

section \<open>The corner test\<close>

lemma alpha_index_in_range:
  assumes "int (length data) = width * height * 4"
    and "0 \<le> x" "x < width" "0 \<le> y" "y < height"
  shows "alpha_index width x y < length data"
proof -
  have "y + 1 \<le> height" using assms by simp
  then have "(y + 1) * width \<le> height * width"
    using assms(2,3) by (intro mult_right_mono) simp_all
  then have "y * width + x < height * width"
    using assms(3) by (simp add: algebra_simps)
  then have "(y * width + x) * 4 + 3 < width * height * 4"
    by (simp add: algebra_simps)
  moreover have "0 \<le> (y * width + x) * 4 + 3" using assms by simp
  ultimately show ?thesis using assms(1) by (simp add: alpha_index_def)
qed

text \<open>With a radius of at most half of each dimension the four squares are disjoint,
  so a pixel on the arc of its corner is outside no other arc.\<close>

lemma arc_not_outside:
  assumes "2 * r \<le> width" "2 * r \<le> height" "on_corner_arc width height r x y"
  shows "\<not> outside_rounded_rect width height r x y"
  using assms
  by (auto simp: on_corner_arc_def outside_rounded_rect_def all_corners_def corner_dist2_def)

text \<open>
  C1, as amended. For a buffer of \<open>width * height\<close> RGBA8 pixels and a radius
  \<open>r > 0\<close>, the alpha sample of pixel \<open>(x, y)\<close> becomes 0 exactly when one of the four
  corner squares holds the pixel with \<open>dx\<^sup>2 + dy\<^sup>2 > r\<^sup>2\<close>, and is unchanged otherwise.
  When \<open>r\<close> is at most half of the width and of the height, a pixel with
  \<open>dx\<^sup>2 + dy\<^sup>2 = r\<^sup>2\<close> in its corner square keeps its alpha.
\<close>

theorem applyRoundedCorners_corner_test:
  assumes "0 < r" and "int (length data) = width * height * 4"
    and "0 \<le> x" "x < width" "0 \<le> y" "y < height"
  shows "applyRoundedCorners data width height r ! alpha_index width x y =
           (if outside_rounded_rect width height r x y then 0
            else data ! alpha_index width x y)
         \<and> (2 * r \<le> width \<and> 2 * r \<le> height \<and> on_corner_arc width height r x y \<longrightarrow>
              applyRoundedCorners data width height r ! alpha_index width x y =
              data ! alpha_index width x y)"
proof -
  have len: "alpha_index width x y < length data"
    using assms(2-6) by (rule alpha_index_in_range)
  have main: "applyRoundedCorners data width height r ! alpha_index width x y =
           (if outside_rounded_rect width height r x y then 0
            else data ! alpha_index width x y)"
    using assms(1) by (intro alpha_applyRoundedCorners assms len) simp
  show ?thesis using main arc_not_outside [of r width height x y] by simp
qed

text \<open>A 10 by 10 opaque image with radius 5: the corner pixel \<open>(0, 0)\<close> is cut away,
  and pixel \<open>(2, 1)\<close>, with \<open>dx = 3\<close> and \<open>dy = 4\<close>, lies on the arc and stays opaque.\<close>

theorem applyRoundedCorners_corner_test_witness:
  "applyRoundedCorners (replicate 400 255) 10 10 5 ! alpha_index 10 0 0 = 0
   \<and> on_corner_arc 10 10 5 2 1
   \<and> applyRoundedCorners (replicate 400 255) 10 10 5 ! alpha_index 10 2 1 = 255"
  using applyRoundedCorners_corner_test [of 5 "replicate 400 255" 10 10 0 0]
    applyRoundedCorners_corner_test [of 5 "replicate 400 255" 10 10 2 1]
  by (simp add: outside_rounded_rect_def on_corner_arc_def all_corners_def corner_dist2_def
      alpha_index_def)

text \<open>
  C1 as stated fails for a radius above half of the width. In a 4 by 4 opaque image
  with radius 5, pixel \<open>(2, 1)\<close> lies on the arc of the top-left corner
  (\<open>dx = 3\<close>, \<open>dy = 4\<close>), but it is also in the top-right square, with \<open>dx = 4\<close> and
  \<open>dy = 4\<close>, and its alpha is set to 0.
\<close>

theorem applyRoundedCorners_boundary_counterexample:
  "(0::int) < 5
   \<and> int (length (replicate 64 255 :: buffer)) = 4 * 4 * 4
   \<and> in_corner_square 4 4 5 TopLeft 2 1
   \<and> corner_dist2 4 4 5 TopLeft 2 1 = 5\<^sup>2
   \<and> (replicate 64 255 :: buffer) ! alpha_index 4 2 1 = 255
   \<and> applyRoundedCorners (replicate 64 255) 4 4 5 ! alpha_index 4 2 1 = 0"
  by (simp add: corner_dist2_def alpha_index_def) code_simp

section \<open>What applyRoundedCorners leaves alone\<close>

lemma rgb_applyRoundedCorners:
  assumes "j < length data" "j mod 4 \<noteq> 3"
  shows "applyRoundedCorners data width height radius ! j = data ! j"
proof (cases "radius = 0")
  case True
  then show ?thesis by (simp add: applyRoundedCorners_def)
next
  case False
  have "\<And>m::int. int j \<noteq> m * 4 + 3"
    using assms(2) by presburger
  then have "\<not> (\<exists>y. 0 \<le> y \<and> y < height \<and> (\<exists>x. 0 \<le> x \<and> x < width
               \<and> int j = (y * width + x) * 4 + 3
               \<and> outside_rounded_rect width height radius x y))"
    by blast
  then show ?thesis
    unfolding nth_applyRoundedCorners [OF assms(1) False] by (simp only: if_False)
qed

lemma changed_applyRoundedCorners:
  assumes "j < length data"
    and "applyRoundedCorners data width height radius ! j \<noteq> data ! j"
  shows "applyRoundedCorners data width height radius ! j = 0
     \<and> (\<exists>x y. 0 \<le> x \<and> x < width \<and> 0 \<le> y \<and> y < height \<and> j = alpha_index width x y
            \<and> outside_rounded_rect width height radius x y)"
proof -
  have r: "radius \<noteq> 0"
    using assms(2) by (auto simp: applyRoundedCorners_def)
  note eq = nth_applyRoundedCorners [OF assms(1) r, of width height]
  with assms(2) obtain y x where h: "0 \<le> y" "y < height" "0 \<le> x" "x < width"
      "int j = (y * width + x) * 4 + 3" "outside_rounded_rect width height radius x y"
    by (auto split: if_splits)
  then have "j = alpha_index width x y"
    by (simp add: alpha_index_def)
  moreover have "applyRoundedCorners data width height radius ! j = 0"
    using eq h by auto
  ultimately show ?thesis using h by blast
qed

lemma outside_in_some_square:
  "outside_rounded_rect width height r x y \<Longrightarrow> in_some_corner_square width height r x y"
  by (auto simp: outside_rounded_rect_def in_some_corner_square_def all_corners_def)

lemma untouched_applyRoundedCorners:
  assumes "0 \<le> x" "x < width" "0 \<le> y" "y < height"
    and "\<not> in_some_corner_square width height radius x y"
    and "k < 4" and "nat ((y * width + x) * 4) + k < length data"
  shows "applyRoundedCorners data width height radius ! (nat ((y * width + x) * 4) + k) =
         data ! (nat ((y * width + x) * 4) + k)"
proof (cases "k = 3")
  case False
  have "0 \<le> y * width + x" using assms(1-4) by simp
  then have "nat ((y * width + x) * 4) = nat (y * width + x) * 4"
    by (subst nat_mult_distrib) simp_all
  then have "(nat ((y * width + x) * 4) + k) mod 4 = k mod 4"
    by (simp only: mod_mult_self3)
  with False assms(6) have "(nat ((y * width + x) * 4) + k) mod 4 \<noteq> 3" by simp
  with assms(7) show ?thesis by (rule rgb_applyRoundedCorners)
next
  case True
  have "0 \<le> (y * width + x) * 4" using assms(1-4) by simp
  then have idx: "nat ((y * width + x) * 4) + k = alpha_index width x y"
    using True by (simp add: alpha_index_def nat_add_distrib)
  show ?thesis
  proof (cases "radius = 0")
    case True
    then show ?thesis by (simp add: applyRoundedCorners_def)
  next
    case False
    from assms(5) have "\<not> outside_rounded_rect width height radius x y"
      using outside_in_some_square by blast
    then show ?thesis
      using alpha_applyRoundedCorners [OF False assms(1-4), of data] assms(7)
      unfolding idx by simp
  qed
qed

lemma forced_applyRoundedCorners:
  assumes "0 \<le> x" "x < width" "0 \<le> y" "y < height"
    and "outside_rounded_rect width height radius x y"
    and "alpha_index width x y < length data"
  shows "applyRoundedCorners data width height radius ! alpha_index width x y = 0"
proof -
  have "radius \<noteq> 0"
    using assms(1-5)
    by (auto simp: outside_rounded_rect_def all_corners_def)
  from alpha_applyRoundedCorners [OF this assms(1-4) assms(6)] assms(5)
  show ?thesis by simp
qed

text \<open>
  C2. For every buffer and all arguments, the result has the length of the input; every
  byte that is not an alpha sample (offset not 3 modulo 4) is unchanged; a byte that
  differs from the input is the alpha sample of a pixel of the grid that is strictly
  outside the rounded rectangle, and it is 0; the alpha sample of every such pixel is 0
  in the result; and all four bytes of a pixel that lies in none of the four corner
  squares are unchanged.
\<close>

theorem applyRoundedCorners_frame:
  "length (applyRoundedCorners data width height radius) = length data
   \<and> (\<forall>j < length data. j mod 4 \<noteq> 3 \<longrightarrow>
         applyRoundedCorners data width height radius ! j = data ! j)
   \<and> (\<forall>j < length data. applyRoundedCorners data width height radius ! j \<noteq> data ! j \<longrightarrow>
         applyRoundedCorners data width height radius ! j = 0
         \<and> (\<exists>x y. 0 \<le> x \<and> x < width \<and> 0 \<le> y \<and> y < height \<and> j = alpha_index width x y
                \<and> outside_rounded_rect width height radius x y))
   \<and> (\<forall>x y. 0 \<le> x \<and> x < width \<and> 0 \<le> y \<and> y < height
         \<and> outside_rounded_rect width height radius x y
         \<and> alpha_index width x y < length data \<longrightarrow>
         applyRoundedCorners data width height radius ! alpha_index width x y = 0)
   \<and> (\<forall>x y k. 0 \<le> x \<and> x < width \<and> 0 \<le> y \<and> y < height
         \<and> \<not> in_some_corner_square width height radius x y
         \<and> k < 4 \<and> nat ((y * width + x) * 4) + k < length data \<longrightarrow>
         applyRoundedCorners data width height radius ! (nat ((y * width + x) * 4) + k) =
         data ! (nat ((y * width + x) * 4) + k))"
  using length_applyRoundedCorners rgb_applyRoundedCorners changed_applyRoundedCorners
    forced_applyRoundedCorners untouched_applyRoundedCorners
  by (intro conjI allI impI) (simp_all del: One_nat_def)

text \<open>On the 3 by 3 sample with radius 1: the length is kept, the red byte of pixel
  \<open>(0, 0)\<close> is kept, the centre pixel is in no corner square and its alpha byte (offset
  19) is kept, and the alpha byte of pixel \<open>(0, 0)\<close> (offset 3) changes, to 0.\<close>

theorem applyRoundedCorners_frame_witness:
  "length (applyRoundedCorners sample_3x3 3 3 1) = 36
   \<and> applyRoundedCorners sample_3x3 3 3 1 ! 0 = 1
   \<and> \<not> in_some_corner_square 3 3 1 1 1
   \<and> applyRoundedCorners sample_3x3 3 3 1 ! 19 = 20
   \<and> applyRoundedCorners sample_3x3 3 3 1 ! 3 \<noteq> sample_3x3 ! 3
   \<and> applyRoundedCorners sample_3x3 3 3 1 ! 3 = 0"
proof -
  note frame = applyRoundedCorners_frame [of sample_3x3 3 3 1]
  have len: "length sample_3x3 = 36" by (simp add: sample_3x3_def)
  have s0: "sample_3x3 ! 0 = 1" and s19: "sample_3x3 ! 19 = 20"
    by (simp_all add: sample_3x3_def)
  have sq: "\<not> in_some_corner_square 3 3 1 1 1"
    by (simp add: in_some_corner_square_def all_corners_def)
  from frame have a: "length (applyRoundedCorners sample_3x3 3 3 1) = 36"
    using len by simp
  from frame have "\<forall>j < length sample_3x3. j mod 4 \<noteq> 3 \<longrightarrow>
         applyRoundedCorners sample_3x3 3 3 1 ! j = sample_3x3 ! j" by blast
  then have b: "applyRoundedCorners sample_3x3 3 3 1 ! 0 = 1"
    using len s0 by simp
  from frame have "\<forall>x y k. 0 \<le> x \<and> x < 3 \<and> 0 \<le> y \<and> y < 3
         \<and> \<not> in_some_corner_square 3 3 1 x y
         \<and> k < 4 \<and> nat ((y * 3 + x) * 4) + k < length sample_3x3 \<longrightarrow>
         applyRoundedCorners sample_3x3 3 3 1 ! (nat ((y * 3 + x) * 4) + k) =
         sample_3x3 ! (nat ((y * 3 + x) * 4) + k)" by blast
  from this [rule_format, of 1 1 3] have c: "applyRoundedCorners sample_3x3 3 3 1 ! 19 = 20"
    using len s19 sq by simp
  from frame have "\<forall>j < length sample_3x3.
         applyRoundedCorners sample_3x3 3 3 1 ! j \<noteq> sample_3x3 ! j \<longrightarrow>
         applyRoundedCorners sample_3x3 3 3 1 ! j = 0
         \<and> (\<exists>x y. 0 \<le> x \<and> x < 3 \<and> 0 \<le> y \<and> y < 3 \<and> j = alpha_index 3 x y
                \<and> outside_rounded_rect 3 3 1 x y)" by blast
  from this [rule_format, of 3] have d: "applyRoundedCorners sample_3x3 3 3 1 ! 3 \<noteq> sample_3x3 ! 3 \<longrightarrow>
        applyRoundedCorners sample_3x3 3 3 1 ! 3 = 0"
    using len by simp
  have e: "applyRoundedCorners sample_3x3 3 3 1 ! 3 \<noteq> sample_3x3 ! 3"
    by code_simp
  show ?thesis using a b sq c d e by blast
qed

section \<open>Rounding to a double\<close>

lemma rne_bounds: "\<lfloor>q\<rfloor> \<le> rne q \<and> rne q \<le> \<lfloor>q\<rfloor> + 1"
  by (simp add: rne_def Let_def)

lemma rne_of_int [simp]: "rne (of_int n) = n"
  by (simp add: rne_def)

lemma rne_ge_int:
  assumes "of_int n \<le> q"
  shows "n \<le> rne q"
proof -
  from assms have "n \<le> \<lfloor>q\<rfloor>" by (simp add: le_floor_iff)
  with rne_bounds [of q] show ?thesis by linarith
qed

lemma rne_le_int:
  assumes "q \<le> of_int n"
  shows "rne q \<le> n"
proof (cases "q = of_int n")
  case True
  then show ?thesis by simp
next
  case False
  with assms have "q < of_int n" by simp
  then have "\<lfloor>q\<rfloor> < n" by (simp add: floor_less_iff)
  with rne_bounds [of q] show ?thesis by simp
qed

lemma rne_mono:
  assumes "p \<le> q"
  shows "rne p \<le> rne q"
proof (cases "\<lfloor>p\<rfloor> < \<lfloor>q\<rfloor>")
  case True
  with rne_bounds [of p] rne_bounds [of q] show ?thesis by simp
next
  case False
  with floor_mono [OF assms] have "\<lfloor>p\<rfloor> = \<lfloor>q\<rfloor>" by simp
  with assms show ?thesis by (auto simp: rne_def Let_def)
qed

lemma rne_minus: "rne (- q) = - rne q"
proof (cases "q = of_int \<lfloor>q\<rfloor>")
  case True
  then have "rne (- of_int \<lfloor>q\<rfloor>) = - rne (of_int \<lfloor>q\<rfloor>)"
    by (metis of_int_minus rne_of_int)
  with True show ?thesis by simp
next
  case False
  define f where "f = \<lfloor>q\<rfloor>"
  define r where "r = q - of_int f"
  from floor_correct [of q] have "of_int f \<le> q" "q < of_int f + 1"
    by (simp_all add: f_def)
  moreover from False have "q \<noteq> of_int f" by (simp add: f_def)
  ultimately have r: "0 < r" "r < 1"
    by (simp_all add: r_def)
  have q: "q = of_int f + r" by (simp add: r_def)
  have "of_int (- f - 1) \<le> - q" "- q < of_int (- f - 1) + 1"
    using r by (simp_all add: q)
  then have fm: "\<lfloor>- q\<rfloor> = - f - 1"
    by (intro floor_unique)
  have rm: "- q - of_int (- f - 1) = 1 - r"
    by (simp add: q)
  have pos: "rne q = (if r < 1 / 2 then f else if 1 / 2 < r then f + 1
                       else if even f then f else f + 1)"
    by (simp add: rne_def Let_def f_def r_def)
  have neg: "rne (- q) = (if 1 - r < 1 / 2 then - f - 1 else if 1 / 2 < 1 - r then - f - 1 + 1
                       else if even (- f - 1) then - f - 1 else - f - 1 + 1)"
    by (simp only: rne_def Let_def fm rm)
  show ?thesis
    unfolding pos neg using r by auto
qed

lemma quotient_of_abs_pos:
  assumes "x \<noteq> 0"
  shows "0 < fst (quotient_of \<bar>x\<bar>)" "0 < snd (quotient_of \<bar>x\<bar>)"
    "\<bar>x\<bar> = of_int (fst (quotient_of \<bar>x\<bar>)) / of_int (snd (quotient_of \<bar>x\<bar>))"
proof -
  obtain a b where ab: "quotient_of \<bar>x\<bar> = (a, b)" by (cases "quotient_of \<bar>x\<bar>")
  from quotient_of_denom_pos [OF ab] have b: "0 < b" .
  from quotient_of_div [OF ab] have x: "\<bar>x\<bar> = of_int a / of_int b" .
  from assms have "0 < \<bar>x\<bar>" by simp
  with x b have "0 < (of_int a :: rat)" by (simp add: zero_less_divide_iff)
  then have a: "0 < a" by simp
  show "0 < fst (quotient_of \<bar>x\<bar>)"
    unfolding ab fst_conv by (rule a)
  show "0 < snd (quotient_of \<bar>x\<bar>)"
    unfolding ab snd_conv by (rule b)
  show "\<bar>x\<bar> = of_int (fst (quotient_of \<bar>x\<bar>)) / of_int (snd (quotient_of \<bar>x\<bar>))"
    unfolding ab fst_conv snd_conv by (rule x)
qed

lemma bitlen_bounds_rat:
  assumes "0 < a"
  shows "2 powi (bitlen a - 1) \<le> (of_int a :: rat)" "(of_int a :: rat) < 2 powi bitlen a"
proof -
  from bitlen_bounds [OF assms]
  have lo: "2 ^ nat (bitlen a - 1) \<le> a" and hi: "a < 2 ^ nat (bitlen a)" by simp_all
  have pos: "1 \<le> bitlen a"
    using assms bitlen_eq_zero_iff [of a] bitlen_nonneg [of a] by linarith
  have "(2 :: rat) ^ nat (bitlen a - 1) = of_int (2 ^ nat (bitlen a - 1))" by simp
  also have "\<dots> \<le> of_int a" using lo by (simp only: of_int_le_iff)
  finally show "2 powi (bitlen a - 1) \<le> (of_int a :: rat)"
    using pos by (simp add: power_int_nonneg_exp)
  have "(of_int a :: rat) < of_int (2 ^ nat (bitlen a))" using hi by (simp only: of_int_less_iff)
  also have "\<dots> = 2 ^ nat (bitlen a)" by simp
  finally show "(of_int a :: rat) < 2 powi bitlen a"
    using pos by (simp add: power_int_nonneg_exp)
qed

lemma binade_bounds:
  assumes "x \<noteq> 0"
  shows "2 powi binade x \<le> \<bar>x\<bar>" "\<bar>x\<bar> < 2 powi (binade x + 1)"
proof -
  define a where "a = fst (quotient_of \<bar>x\<bar>)"
  define b where "b = snd (quotient_of \<bar>x\<bar>)"
  define d where "d = bitlen a - bitlen b"
  from quotient_of_abs_pos [OF assms]
  have a: "0 < a" and b: "0 < b" and x: "\<bar>x\<bar> = of_int a / of_int b"
    by (simp_all add: a_def b_def)
  note A = bitlen_bounds_rat [OF a] and B = bitlen_bounds_rat [OF b]
  have "\<bar>x\<bar> < 2 powi bitlen a / 2 powi (bitlen b - 1)"
    unfolding x using A B a b by (intro frac_less) simp_all
  also have "\<dots> = 2 powi (d + 1)"
    by (simp add: d_def power_int_diff [symmetric] algebra_simps)
  finally have hi: "\<bar>x\<bar> < 2 powi (d + 1)" .
  have "2 powi (d - 1) = 2 powi (bitlen a - 1) / (2 powi bitlen b :: rat)"
    by (simp add: d_def power_int_diff [symmetric] algebra_simps)
  also have "\<dots> \<le> \<bar>x\<bar>"
    unfolding x using A B a b by (intro frac_le) simp_all
  finally have lo: "2 powi (d - 1) \<le> \<bar>x\<bar>" .
  have e: "binade x = (if 2 powi d \<le> \<bar>x\<bar> then d else d - 1)"
    by (simp add: binade_def Let_def a_def b_def d_def)
  show "2 powi binade x \<le> \<bar>x\<bar>" using lo by (simp add: e)
  show "\<bar>x\<bar> < 2 powi (binade x + 1)" using hi by (auto simp: e)
qed

lemma binade_minus [simp]: "binade (- x) = binade x"
  by (simp add: binade_def)

lemma binade_mono:
  assumes "0 < x" "x \<le> y"
  shows "binade x \<le> binade y"
proof (rule ccontr)
  assume "\<not> binade x \<le> binade y"
  then have "binade y + 1 \<le> binade x" by simp
  then have "(2 :: rat) powi (binade y + 1) \<le> 2 powi binade x"
    by (intro power_int_increasing) simp_all
  moreover have "y < 2 powi (binade y + 1)"
    using binade_bounds(2) [of y] assms by simp
  moreover have "2 powi binade x \<le> x"
    using binade_bounds(1) [of x] assms by simp
  ultimately show False using assms by simp
qed

lemma to_double_minus: "to_double (- x) = - to_double x"
  by (simp add: to_double_def Let_def rne_minus)

lemma to_double_nonneg:
  assumes "0 \<le> x"
  shows "0 \<le> to_double x"
proof (cases "x = 0")
  case True
  then show ?thesis by (simp add: to_double_def)
next
  case False
  define g where "g = max (binade x) (- 1022) - 52"
  have "(of_int 0 :: rat) \<le> x / 2 powi g" using assms by simp
  then have "0 \<le> rne (x / 2 powi g)" by (rule rne_ge_int)
  then show ?thesis using False by (simp add: to_double_def Let_def g_def)
qed

lemma to_double_mono_pos:
  assumes "0 < x" "x \<le> y"
  shows "to_double x \<le> to_double y"
proof -
  define gx where "gx = max (binade x) (- 1022) - 52"
  define gy where "gy = max (binade y) (- 1022) - 52"
  have y: "0 < y" using assms by simp
  have fx: "to_double x = of_int (rne (x / 2 powi gx)) * 2 powi gx"
    using assms by (simp add: to_double_def Let_def gx_def)
  have fy: "to_double y = of_int (rne (y / 2 powi gy)) * 2 powi gy"
    using y by (simp add: to_double_def Let_def gy_def)
  have le: "binade x \<le> binade y" using assms by (rule binade_mono)
  show ?thesis
  proof (cases "gx = gy")
    case True
    have "x / 2 powi gy \<le> y / 2 powi gy"
      using assms by (intro divide_right_mono) simp_all
    then have "rne (x / 2 powi gy) \<le> rne (y / 2 powi gy)" by (rule rne_mono)
    then show ?thesis unfolding fx fy True
      by (intro mult_right_mono) simp_all
  next
    case False
    with le have lt: "gx < gy" unfolding gx_def gy_def by linarith
    with le have ey: "gy = binade y - 52" and exy: "binade x < binade y"
      unfolding gx_def gy_def by linarith+
    define N where "N = (2 :: int) ^ nat (binade y - gx)"
    have ex: "0 \<le> binade y - gx" using lt ey by simp
    have "x < 2 powi (binade x + 1)"
      using binade_bounds(2) [of x] assms by simp
    also have "\<dots> \<le> 2 powi binade y"
      using exy by (intro power_int_increasing) simp_all
    finally have xle: "x \<le> 2 powi binade y" by simp
    have "2 powi binade y = (of_int N :: rat) * 2 powi gx"
      using ex by (simp add: N_def power_int_nonneg_exp [symmetric] power_int_add [symmetric])
    then have Nx: "(of_int N :: rat) = 2 powi binade y / 2 powi gx" by simp
    have "x / 2 powi gx \<le> of_int N"
      unfolding Nx using xle by (intro divide_right_mono) simp_all
    then have "rne (x / 2 powi gx) \<le> N" by (rule rne_le_int)
    then have "to_double x \<le> of_int N * 2 powi gx"
      unfolding fx by (intro mult_right_mono) simp_all
    also have "\<dots> = 2 powi binade y" by (simp add: Nx)
    finally have one: "to_double x \<le> 2 powi binade y" .
    have "(of_int (2 ^ 52) :: rat) = 2 powi binade y / 2 powi gy"
      by (simp add: ey power_int_diff [symmetric])
    also have "\<dots> \<le> y / 2 powi gy"
      using binade_bounds(1) [of y] y by (intro divide_right_mono) simp_all
    finally have "2 ^ 52 \<le> rne (y / 2 powi gy)" by (rule rne_ge_int)
    then have "(of_int (2 ^ 52) :: rat) * 2 powi gy \<le> to_double y"
      unfolding fy by (intro mult_right_mono) (simp_all only: of_int_le_iff zero_le_power_int zero_le_numeral)
    moreover have "(of_int (2 ^ 52) :: rat) * 2 powi gy = 2 powi binade y"
      by (simp add: ey power_int_diff)
    ultimately show ?thesis using one by simp
  qed
qed

lemma to_double_mono:
  assumes "x \<le> y"
  shows "to_double x \<le> to_double y"
proof -
  consider "0 < x" | "y < 0" | "x \<le> 0" "0 \<le> y" by linarith
  then show ?thesis
  proof cases
    case 1
    with assms show ?thesis by (intro to_double_mono_pos)
  next
    case 2
    then have "0 < - y" "- y \<le> - x" using assms by simp_all
    from to_double_mono_pos [OF this] show ?thesis by (simp add: to_double_minus)
  next
    case 3
    have "0 \<le> to_double (- x)" using 3 by (intro to_double_nonneg) simp
    then have "to_double x \<le> 0" by (simp add: to_double_minus)
    also have "0 \<le> to_double y" using 3 by (intro to_double_nonneg)
    finally show ?thesis .
  qed
qed

lemma to_double_exact:
  assumes "x \<noteq> 0" and "x / 2 powi (max (binade x) (- 1022) - 52) = of_int k"
  shows "to_double x = x"
proof -
  have "to_double x = of_int k * 2 powi (max (binade x) (- 1022) - 52)"
    using assms(1) by (simp add: to_double_def Let_def assms(2))
  also have "\<dots> = x"
    unfolding assms(2) [symmetric] by simp
  finally show ?thesis .
qed

text \<open>Halving an integer below \<open>2 ^ 53\<close> is exact.\<close>

lemma to_double_half:
  assumes "\<bar>m\<bar> < 2 ^ 53"
  shows "to_double (of_int m / 2) = of_int m / 2"
proof (cases "m = 0")
  case True
  then show ?thesis by (simp add: to_double_def)
next
  case False
  define x :: rat where "x = of_int m / 2"
  define e where "e = binade x"
  have x0: "x \<noteq> 0" using False by (simp add: x_def)
  have ax: "\<bar>x\<bar> = of_int \<bar>m\<bar> / 2" by (simp add: x_def)
  have "1 \<le> \<bar>m\<bar>" using False by simp
  then have "(1 :: rat) \<le> of_int \<bar>m\<bar>" by (simp only: of_int_1_le_iff)
  then have lo: "1 / 2 \<le> \<bar>x\<bar>" by (simp add: ax)
  have "(of_int \<bar>m\<bar> :: rat) < of_int (2 ^ 53)"
    using assms by (simp only: of_int_less_iff)
  then have hi: "\<bar>x\<bar> < 2 ^ 52" by (simp add: ax)
  note b = binade_bounds [OF x0, folded e_def]
  have e_lo: "- 1 \<le> e"
  proof (rule ccontr)
    assume "\<not> - 1 \<le> e"
    then have "e + 1 \<le> - 1" by simp
    then have "(2 :: rat) powi (e + 1) \<le> 2 powi (- 1)"
      by (intro power_int_increasing) simp_all
    with b(2) lo show False by (simp add: power_int_minus)
  qed
  have e_hi: "e \<le> 51"
  proof (rule ccontr)
    assume "\<not> e \<le> 51"
    then have "52 \<le> e" by simp
    then have "(2 :: rat) powi 52 \<le> 2 powi e"
      by (intro power_int_increasing) simp_all
    with b(1) hi show False by simp
  qed
  have g: "max (binade x) (- 1022) - 52 = e - 52"
    using e_lo by (simp add: e_def)
  have "(2 :: rat) powi (51 - e) = 2 ^ nat (51 - e)"
    using e_hi by (simp add: power_int_nonneg_exp)
  moreover have "x / 2 powi (e - 52) = of_int m * 2 powi (51 - e)"
  proof -
    have "(2 :: rat) powi (52 - e) = 2 powi ((51 - e) + 1)"
      by (simp add: algebra_simps)
    also have "\<dots> = 2 powi (51 - e) * 2"
      by (subst power_int_add) simp_all
    finally have a: "(2 :: rat) powi (52 - e) = 2 powi (51 - e) * 2" .
    have "(2 :: rat) powi (e - 52) = 2 powi (- (52 - e))"
      by simp
    also have "\<dots> = inverse (2 powi (52 - e))"
      by (rule power_int_minus)
    finally have b: "(2 :: rat) powi (e - 52) = inverse (2 powi (51 - e) * 2)"
      by (simp only: a)
    show ?thesis
      unfolding b x_def by (simp add: field_simps)
  qed
  ultimately have "x / 2 powi (max (binade x) (- 1022) - 52) = of_int (m * 2 ^ nat (51 - e))"
    by (simp add: g)
  from to_double_exact [OF x0 this] show ?thesis by (simp add: x_def)
qed

lemma js_divide_mono:
  assumes "a \<le> b" "0 < c"
  shows "js_divide a c \<le> js_divide b c"
  unfolding js_divide_def using assms by (intro to_double_mono divide_right_mono) simp_all

lemma js_times_mono:
  assumes "a \<le> b" "0 \<le> c"
  shows "js_times c a \<le> js_times c b"
  unfolding js_times_def using assms by (intro to_double_mono mult_left_mono)

lemma js_nonneg:
  "0 \<le> a \<Longrightarrow> 0 \<le> b \<Longrightarrow> 0 \<le> js_divide a b"
  "0 \<le> a \<Longrightarrow> 0 \<le> b \<Longrightarrow> 0 \<le> js_times a b"
  by (simp_all add: js_divide_def js_times_def to_double_nonneg)

section \<open>The requested radius\<close>

lemma requested_radius_simps:
  "requested_radius NaN = Fin 40"
  "requested_radius NegInf = Fin 0"
  "requested_radius PosInf = Fin 256"
  "requested_radius (Fin q) = (if q = 0 then Fin 40 else Fin (max 0 (min 256 q)))"
  by (simp_all add: requested_radius_def js_or_def truthy_def)

lemma requested_radius_finite:
  "\<exists>q. requested_radius n = Fin q \<and> 0 \<le> q \<and> q \<le> 256"
  by (cases n) (simp_all add: requested_radius_simps)

lemma requested_radius_unchanged:
  "requested_radius n = n \<longleftrightarrow> (\<exists>q. n = Fin q \<and> 0 < q \<and> q \<le> 256)"
  by (cases n) (auto simp: requested_radius_simps max_def min_def)

text \<open>
  C10, as amended. When the radius field is absent, or its string converts to NaN or
  to 0, the requested radius is 40; in particular a request of 0 is not used as it is.
  A number is used unchanged exactly when it lies in the interval from 0 (excluded) to
  256 (included), which for whole numbers is 1 to 256; a larger one becomes 256 and a
  negative one becomes 0.
\<close>

theorem requested_radius_fallback:
  "requested_radius (Number S None) = Fin 40
   \<and> (S s = NaN \<or> S s = Fin 0 \<longrightarrow> requested_radius (Number S (Some s)) = Fin 40)
   \<and> requested_radius (Fin 0) \<noteq> Fin 0
   \<and> (requested_radius n = n \<longleftrightarrow> (\<exists>q. n = Fin q \<and> 0 < q \<and> q \<le> 256))
   \<and> (256 < q \<longrightarrow> requested_radius (Fin q) = Fin 256)
   \<and> requested_radius PosInf = Fin 256
   \<and> (q < 0 \<longrightarrow> requested_radius (Fin q) = Fin 0)
   \<and> requested_radius NegInf = Fin 0"
  using requested_radius_unchanged [of n]
  by (auto simp: Number_def requested_radius_simps)

theorem requested_radius_fallback_witness:
  "StringToNumber sample_libs ''0'' = Fin 0
   \<and> requested_radius (Number (StringToNumber sample_libs) (Some ''0'')) = Fin 40
   \<and> requested_radius (Fin 7) = Fin 7
   \<and> requested_radius (Fin 300) = Fin 256
   \<and> requested_radius (Fin (- 3)) = Fin 0"
  using requested_radius_fallback [of "StringToNumber sample_libs" "''0''" "Fin 7" 300]
    requested_radius_fallback [of "StringToNumber sample_libs" "''0''" "Fin 7" "- 3"]
  by (simp add: sample_libs_def)

text \<open>
  C10 as stated fails for a number between 0 and 1: \<open>Number("0.5")\<close> is 0.5, which is
  truthy and within the clamp, so it is used unchanged although it is not in the interval
  from 1 to 256.
\<close>

theorem requested_radius_half_counterexample:
  "requested_radius (Fin (1 / 2)) = Fin (1 / 2) \<and> \<not> (1 \<le> (1 / 2 :: rat))"
  by (simp add: requested_radius_simps)

section \<open>The effective radius\<close>

lemma previewBaseSize_positive:
  "0 < previewBaseSize (or_default w 512) (or_default h 512)"
  by (simp add: previewBaseSize_def or_default_def split: option.splits)

lemma Math_round_mono: "p \<le> q \<Longrightarrow> Math_round p \<le> Math_round q"
  by (simp add: Math_round_def floor_mono)

lemma Math_floor_mono: "p \<le> q \<Longrightarrow> Math_floor p \<le> Math_floor q"
  by (simp add: Math_floor_def floor_mono)

lemma scaledRadius_nonneg:
  assumes "0 \<le> radius" "0 < previewBase" "0 \<le> sz"
  shows "0 \<le> scaledRadius radius previewBase sz sz"
proof -
  have "0 \<le> js_times radius (js_divide (of_int (min sz sz)) (of_int previewBase))"
    using assms by (intro js_nonneg) simp_all
  then show ?thesis
    by (simp add: scaledRadius_def Math_round_def)
qed

lemma scaledRadius_mono:
  assumes "0 \<le> radius" "0 < previewBase" "S1 \<le> S2"
  shows "scaledRadius radius previewBase S1 S1 \<le> scaledRadius radius previewBase S2 S2"
proof -
  have "js_divide (of_int S1) (of_int previewBase) \<le> js_divide (of_int S2) (of_int previewBase)"
    using assms(2,3) by (intro js_divide_mono) simp_all
  then have "js_times radius (js_divide (of_int S1) (of_int previewBase))
             \<le> js_times radius (js_divide (of_int S2) (of_int previewBase))"
    using assms(1) by (rule js_times_mono)
  then show ?thesis
    by (simp add: scaledRadius_def Math_round_mono)
qed

lemma half_mono:
  assumes "S1 \<le> S2"
  shows "Math_floor (js_divide (of_int S1) 2) \<le> Math_floor (js_divide (of_int S2) 2)"
proof -
  have "js_divide (of_int S1) 2 \<le> js_divide (of_int S2) 2"
    using assms by (intro js_divide_mono) simp_all
  then show ?thesis by (rule Math_floor_mono)
qed

lemma half_exact:
  assumes "\<bar>sz\<bar> < 2 ^ 53"
  shows "Math_floor (js_divide (of_int sz) 2) = sz div 2"
proof -
  have a: "js_divide (of_int sz) 2 = of_int sz / 2"
    unfolding js_divide_def by (rule to_double_half [OF assms])
  have b: "\<lfloor>(of_int sz :: rat) / 2\<rfloor> = sz div 2"
    using floor_divide_of_int_eq [of sz 2, where ?'a = rat] by simp
  show ?thesis
    unfolding Math_floor_def a by (rule b)
qed

lemma spec_effective_radius_mono:
  assumes "0 \<le> baseRadius" "0 < referenceSize" "S1 \<le> S2"
  shows "spec_effective_radius baseRadius referenceSize S1 S1
         \<le> spec_effective_radius baseRadius referenceSize S2 S2"
proof -
  have "baseRadius * of_int S1 \<le> baseRadius * of_int S2"
    using assms(1,3) by (intro mult_left_mono) simp_all
  then have "baseRadius * of_int S1 / of_int referenceSize
             \<le> baseRadius * of_int S2 / of_int referenceSize"
    using assms(2) by (intro divide_right_mono) simp_all
  then have "\<lfloor>baseRadius * of_int S1 / of_int referenceSize + 1 / 2\<rfloor>
             \<le> \<lfloor>baseRadius * of_int S2 / of_int referenceSize + 1 / 2\<rfloor>"
    by (intro floor_mono) simp
  moreover have "S1 div 2 \<le> S2 div 2"
    using assms(3) by (intro zdiv_mono1) simp_all
  ultimately show ?thesis
    by (simp add: spec_effective_radius_def min_le_iff_disj)
qed

text \<open>
  C4, as amended. A square variant of size \<open>sz\<close> is the only kind that
  \<open>resizeAndApplyRoundedCorners\<close> is called for. When the resizer returns a buffer of the
  target dimensions, the buffer is masked with the radius
  \<open>min (round (radius \<otimes> (sz \<oslash> previewBaseSize))) (sz div 2)\<close>, where the quotient and
  then the product are each rounded to the nearest double. The social preview is written
  by the loop itself as the resizer encoded it, with no radius at all. For a 512 by 512
  source the reference size is 192; with a request of 40 the 32 by 32 variant has the
  scaled radius 7, which is below the clamp 16, and the effective radius 7, and for this
  request every square variant has the radius of the exact formula.
\<close>

theorem resizeAndApplyRoundedCorners_radius:
  "(sharp_resize_raw L baseBuffer sz sz cover_options = Inr resized
      \<and> info_width resized = sz \<and> info_height resized = sz \<and> \<bar>sz\<bar> < 2 ^ 53 \<longrightarrow>
    resizeAndApplyRoundedCorners L baseBuffer radius previewBase sz False =
      sharp_raw_png L
        (applyRoundedCorners (raw_data resized) sz sz
           (min (Math_round (to_double (radius * to_double (of_int sz / of_int previewBase))))
                (sz div 2)))
        sz sz)
   \<and> public_loop L baseBuffer radius previewBase [(''public/opengraph-image.png'', 1200)] zipfile =
       (case sharp_resize_png L baseBuffer 1200 630 contain_options of
          Inl e \<Rightarrow> Inl e
        | Inr ogpImage \<Rightarrow>
            Inr (folder_file publicFolder ''opengraph-image.png'' (Binary ogpImage) zipfile))
   \<and> previewBaseSize (or_default (Some 512) 512) (or_default (Some 512) 512) = 192
   \<and> requested_radius (Fin 40) = Fin 40
   \<and> scaledRadius 40 192 32 32 = 7
   \<and> Math_floor (js_divide (of_int (min 32 32)) 2) = 16
   \<and> effectiveRadius 40 192 32 32 32 32 = 7
   \<and> map (\<lambda>sz. effectiveRadius 40 192 sz sz sz sz) [16, 32, 48, 180, 192, 512]
       = [3, 7, 10, 38, 40, 107]
   \<and> map (\<lambda>sz. spec_effective_radius 40 192 sz sz) [16, 32, 48, 180, 192, 512]
       = [3, 7, 10, 38, 40, 107]"
proof -
  have general: "resizeAndApplyRoundedCorners L baseBuffer radius previewBase sz False =
      sharp_raw_png L
        (applyRoundedCorners (raw_data resized) sz sz
           (min (Math_round (to_double (radius * to_double (of_int sz / of_int previewBase))))
                (sz div 2)))
        sz sz"
    if "sharp_resize_raw L baseBuffer sz sz cover_options = Inr resized"
      "info_width resized = sz" "info_height resized = sz" "\<bar>sz\<bar> < 2 ^ 53"
  proof -
    have "effectiveRadius radius previewBase sz sz sz sz =
          min (Math_round (to_double (radius * to_double (of_int sz / of_int previewBase))))
              (sz div 2)"
      using half_exact [OF that(4)]
      by (simp add: effectiveRadius_def scaledRadius_def js_times_def js_divide_def)
    with that(1-3) show ?thesis
      by (simp add: resizeAndApplyRoundedCorners_def Let_def)
  qed
  have preview: "public_loop L baseBuffer radius previewBase
         [(''public/opengraph-image.png'', 1200)] zipfile =
       (case sharp_resize_png L baseBuffer 1200 630 contain_options of
          Inl e \<Rightarrow> Inl e
        | Inr ogpImage \<Rightarrow>
            Inr (folder_file publicFolder ''opengraph-image.png'' (Binary ogpImage) zipfile))"
    by (simp add: Let_def split: sum.splits)
  have pb: "previewBaseSize (or_default (Some 512) 512) (or_default (Some 512) 512) = 192"
    by (simp add: previewBaseSize_def or_default_def)
  have rr: "requested_radius (Fin 40) = Fin 40"
    by (simp add: requested_radius_simps)
  have sc: "scaledRadius 40 192 32 32 = 7"
    by code_simp
  have fl: "Math_floor (js_divide (of_int (min 32 32)) 2) = 16"
    by code_simp
  have ef: "effectiveRadius 40 192 32 32 32 32 = 7"
    by code_simp
  have code: "map (\<lambda>sz. effectiveRadius 40 192 sz sz sz sz) [16, 32, 48, 180, 192, 512]
       = [3, 7, 10, 38, 40, 107]"
    by code_simp
  have spec: "map (\<lambda>sz. spec_effective_radius 40 192 sz sz) [16, 32, 48, 180, 192, 512]
       = [3, 7, 10, 38, 40, 107]"
    by code_simp
  show ?thesis
    using general preview pb rr sc fl ef code spec by blast
qed

text \<open>With libraries whose resizer answers with a white tile of 4 by 4 pixels: at radius 12
  and reference size 48 the scaled radius of a 4 by 4 target is 1, below the clamp 2, and
  the four corner pixels lose their alpha; at radius 40 and reference size 20 the scaled
  radius 8 is clamped to 2, and only the four centre pixels keep theirs.\<close>

theorem resizeAndApplyRoundedCorners_radius_witness:
  "sharp_resize_raw tile_libs [] 4 4 cover_options =
     Inr \<lparr>raw_data = white_tile, info_width = 4, info_height = 4\<rparr>
   \<and> scaledRadius 12 48 4 4 = 1
   \<and> resizeAndApplyRoundedCorners tile_libs [] 12 48 4 False = Inr corner_tile
   \<and> scaledRadius 40 20 4 4 = 8
   \<and> resizeAndApplyRoundedCorners tile_libs [] 40 20 4 False = Inr masked_tile
   \<and> corner_tile \<noteq> white_tile \<and> masked_tile \<noteq> corner_tile"
proof -
  let ?tile = "\<lparr>raw_data = white_tile, info_width = 4, info_height = 4\<rparr>"
  have resize: "sharp_resize_raw tile_libs [] 4 4 cover_options = Inr ?tile"
    by (simp add: tile_libs_def)
  have encode: "sharp_raw_png tile_libs buf w h = Inr buf" for buf w h
    by (simp add: tile_libs_def sample_libs_def)
  have hyp: "sharp_resize_raw tile_libs [] 4 4 cover_options = Inr ?tile
      \<and> info_width ?tile = 4 \<and> info_height ?tile = 4 \<and> \<bar>4 :: int\<bar> < 2 ^ 53"
    using resize by simp
  have r1: "min (Math_round (to_double (12 * to_double (of_int 4 / of_int 48)))) (4 div 2)
            = (1 :: int)"
    by code_simp
  have r2: "min (Math_round (to_double (40 * to_double (of_int 4 / of_int 20)))) (4 div 2)
            = (2 :: int)"
    by code_simp
  have s1: "scaledRadius 12 48 4 4 = 1"
    by code_simp
  have s2: "scaledRadius 40 20 4 4 = 8"
    by code_simp
  have m1: "applyRoundedCorners white_tile 4 4 1 = corner_tile"
    by code_simp
  have m2: "applyRoundedCorners white_tile 4 4 2 = masked_tile"
    by code_simp
  have d1: "corner_tile \<noteq> white_tile"
    by code_simp
  have d2: "masked_tile \<noteq> corner_tile"
    by code_simp
  from resizeAndApplyRoundedCorners_radius [of tile_libs "[]" 4 ?tile 12 48] hyp
  have "resizeAndApplyRoundedCorners tile_libs [] 12 48 4 False =
      sharp_raw_png tile_libs
        (applyRoundedCorners (raw_data ?tile) 4 4
           (min (Math_round (to_double (12 * to_double (of_int 4 / of_int 48)))) (4 div 2)))
        4 4"
    by blast
  then have a: "resizeAndApplyRoundedCorners tile_libs [] 12 48 4 False = Inr corner_tile"
    unfolding r1 by (simp add: encode m1)
  from resizeAndApplyRoundedCorners_radius [of tile_libs "[]" 4 ?tile 40 20] hyp
  have "resizeAndApplyRoundedCorners tile_libs [] 40 20 4 False =
      sharp_raw_png tile_libs
        (applyRoundedCorners (raw_data ?tile) 4 4
           (min (Math_round (to_double (40 * to_double (of_int 4 / of_int 20)))) (4 div 2)))
        4 4"
    by blast
  then have b: "resizeAndApplyRoundedCorners tile_libs [] 40 20 4 False = Inr masked_tile"
    unfolding r2 by (simp add: encode m2)
  show ?thesis
    using resize s1 a s2 b d1 d2 by blast
qed

text \<open>
  C4 as stated fails for a radius of 5.5 and a source of 132 by 132 at the 180 pixel
  variant. The request is used unchanged and the reference size is 132. The exact value
  of \<open>5.5 * 180 / 132\<close> is 7.5, which rounds to 8, below the clamp 90. The code divides
  first: the double nearest to \<open>180 / 132\<close> is below the quotient, the product is rounded
  to a double below 7.5, and the radius that is applied is 7.
\<close>

theorem scaledRadius_counterexample:
  "requested_radius (Fin (11 / 2)) = Fin (11 / 2)
   \<and> previewBaseSize (or_default (Some 132) 512) (or_default (Some 132) 512) = 132
   \<and> js_divide (of_int (min 180 180)) (of_int 132) < 180 / 132
   \<and> js_times (11 / 2) (js_divide (of_int (min 180 180)) (of_int 132)) < 15 / 2
   \<and> scaledRadius (11 / 2) 132 180 180 = 7
   \<and> effectiveRadius (11 / 2) 132 180 180 180 180 = 7
   \<and> spec_effective_radius (11 / 2) 132 180 180 = 8"
proof -
  have "requested_radius (Fin (11 / 2)) = Fin (11 / 2)"
    by (simp add: requested_radius_simps)
  moreover have "previewBaseSize (or_default (Some 132) 512) (or_default (Some 132) 512) = 132"
    by (simp add: previewBaseSize_def or_default_def)
  moreover have "js_divide (of_int (min 180 180)) (of_int 132) < 180 / 132"
    by code_simp
  moreover have "js_times (11 / 2) (js_divide (of_int (min 180 180)) (of_int 132)) < 15 / 2"
    by code_simp
  moreover have "scaledRadius (11 / 2) 132 180 180 = 7"
    by code_simp
  moreover have "effectiveRadius (11 / 2) 132 180 180 180 180 = 7"
    by code_simp
  moreover have "spec_effective_radius (11 / 2) 132 180 180 = 8"
    by code_simp
  ultimately show ?thesis by blast
qed

text \<open>
  C5. For a base radius that is not negative and a positive reference size, the effective
  radius of a square target does not decrease when the target grows. The handler's base
  radius and reference size are always of that kind. The radius is the one the code
  computes, with its quotient and product rounded to doubles; the same holds of the
  exact formula.
\<close>

theorem effectiveRadius_monotone:
  "(0 \<le> baseRadius \<and> 0 < referenceSize \<and> S1 \<le> S2 \<longrightarrow>
      effectiveRadius baseRadius referenceSize S1 S1 S1 S1
      \<le> effectiveRadius baseRadius referenceSize S2 S2 S2 S2)
   \<and> 0 \<le> fin_value (requested_radius n)
   \<and> 0 < previewBaseSize (or_default w 512) (or_default h 512)
   \<and> (0 \<le> baseRadius \<and> 0 < referenceSize \<and> S1 \<le> S2 \<longrightarrow>
      spec_effective_radius baseRadius referenceSize S1 S1
      \<le> spec_effective_radius baseRadius referenceSize S2 S2)"
proof -
  have "effectiveRadius baseRadius referenceSize S1 S1 S1 S1
        \<le> effectiveRadius baseRadius referenceSize S2 S2 S2 S2"
    if "0 \<le> baseRadius" "0 < referenceSize" "S1 \<le> S2"
    using scaledRadius_mono [OF that] half_mono [OF that(3)]
    by (simp add: effectiveRadius_def min_le_iff_disj)
  moreover have "0 \<le> fin_value (requested_radius n)"
    using requested_radius_finite [of n] by auto
  moreover have "spec_effective_radius baseRadius referenceSize S1 S1
      \<le> spec_effective_radius baseRadius referenceSize S2 S2"
    if "0 \<le> baseRadius" "0 < referenceSize" "S1 \<le> S2"
    using that by (rule spec_effective_radius_mono)
  ultimately show ?thesis
    using previewBaseSize_positive by blast
qed

theorem effectiveRadius_monotone_witness:
  "effectiveRadius 40 192 16 16 16 16 = 3
   \<and> effectiveRadius 40 192 32 32 32 32 = 7
   \<and> effectiveRadius 40 192 16 16 16 16 \<le> effectiveRadius 40 192 32 32 32 32
   \<and> effectiveRadius (11 / 2) 132 48 48 48 48 = 2
   \<and> effectiveRadius (11 / 2) 132 180 180 180 180 = 7
   \<and> spec_effective_radius (11 / 2) 132 48 48 \<le> spec_effective_radius (11 / 2) 132 180 180"
proof -
  have small: "effectiveRadius 40 192 16 16 16 16 = 3"
    by code_simp
  have large: "effectiveRadius 40 192 32 32 32 32 = 7"
    by code_simp
  have small': "effectiveRadius (11 / 2) 132 48 48 48 48 = 2"
    by code_simp
  have large': "effectiveRadius (11 / 2) 132 180 180 180 180 = 7"
    by code_simp
  show ?thesis
    using effectiveRadius_monotone [of 40 192 16 32]
      effectiveRadius_monotone [of "11 / 2" 132 48 180]
    by (simp add: small large small' large')
qed

section \<open>A request for radius 0\<close>

text \<open>
  C6 at the request \<open>radius = "0"\<close> with a 512 by 512 source: the string converts to 0,
  which is falsy, so the requested radius is 40; the reference size is 192 and the
  32 by 32 variant is masked with radius 7, which sets the alpha of the corner pixel
  \<open>(0, 0)\<close> of an opaque buffer to 0.
\<close>

theorem radius_zero_request_is_masked:
  "StringToNumber sample_libs ''0'' = Fin 0
   \<and> requested_radius (Number (StringToNumber sample_libs) (Some ''0'')) = Fin 40
   \<and> previewBaseSize (or_default (Some 512) 512) (or_default (Some 512) 512) = 192
   \<and> effectiveRadius 40 192 32 32 32 32 = 7
   \<and> (replicate 4096 255 :: buffer) ! alpha_index 32 0 0 = 255
   \<and> applyRoundedCorners (replicate 4096 255) 32 32 7 ! alpha_index 32 0 0 = 0"
proof -
  have "applyRoundedCorners (replicate 4096 255) 32 32 7 ! alpha_index 32 0 0 =
     (if outside_rounded_rect 32 32 7 0 0 then 0
      else (replicate 4096 255 :: buffer) ! alpha_index 32 0 0)"
    by (rule alpha_applyRoundedCorners) (simp_all add: alpha_index_def)
  moreover have "outside_rounded_rect 32 32 7 0 0"
    by (simp add: outside_rounded_rect_def all_corners_def corner_dist2_def)
  moreover have "effectiveRadius 40 192 32 32 32 32 = 7"
    by code_simp
  ultimately show ?thesis
    by (simp add: sample_libs_def Number_def requested_radius_simps previewBaseSize_def
        or_default_def alpha_index_def)
qed

section \<open>The handler\<close>

lemma public_filenames:
  "replace_first ''public/'' [] ''public/favicon-16x16.png'' = ''favicon-16x16.png''"
  "replace_first ''public/'' [] ''public/favicon-32x32.png'' = ''favicon-32x32.png''"
  "replace_first ''public/'' [] ''public/favicon-48x48.png'' = ''favicon-48x48.png''"
  "replace_first ''public/'' [] ''public/apple-touch-icon.png'' = ''apple-touch-icon.png''"
  "replace_first ''public/'' [] ''public/android-chrome-192x192.png'' = ''android-chrome-192x192.png''"
  "replace_first ''public/'' [] ''public/android-chrome-512x512.png'' = ''android-chrome-512x512.png''"
  "replace_first ''public/'' [] ''public/opengraph-image.png'' = ''opengraph-image.png''"
  by simp_all

lemma app_filenames:
  "replace_first ''src/app/'' [] ''src/app/icon.png'' = ''icon.png''"
  "replace_first ''src/app/'' [] ''src/app/apple-icon.png'' = ''apple-icon.png''"
  by simp_all

text \<open>A run of the loops over the tables, from the empty archive.\<close>

lemma public_loop_Inr:
  assumes "public_loop L base radius pb PUBLIC_SIZES [] = Inr z'"
  shows "\<exists>p16 p32 p48 p180 p192 p512 ogp.
      resizeAndApplyRoundedCorners L base radius pb 16 False = Inr p16
    \<and> resizeAndApplyRoundedCorners L base radius pb 32 False = Inr p32
    \<and> resizeAndApplyRoundedCorners L base radius pb 48 False = Inr p48
    \<and> resizeAndApplyRoundedCorners L base radius pb 180 False = Inr p180
    \<and> resizeAndApplyRoundedCorners L base radius pb 192 False = Inr p192
    \<and> resizeAndApplyRoundedCorners L base radius pb 512 False = Inr p512
    \<and> sharp_resize_png L base 1200 630 contain_options = Inr ogp
    \<and> z' = [(''public/favicon-16x16.png'', Binary p16),
            (''public/favicon-32x32.png'', Binary p32),
            (''public/favicon-48x48.png'', Binary p48),
            (''public/apple-touch-icon.png'', Binary p180),
            (''public/android-chrome-192x192.png'', Binary p192),
            (''public/android-chrome-512x512.png'', Binary p512),
            (''public/opengraph-image.png'', Binary ogp)]"
  using assms
  by (simp add: PUBLIC_SIZES_def public_filenames Let_def folder_file_def publicFolder_def
      split: sum.splits)

lemma app_loop_Inr:
  assumes "app_loop L base radius pb APP_SIZES z = Inr z'"
  shows "\<exists>p32 p180.
      resizeAndApplyRoundedCorners L base radius pb 32 False = Inr p32
    \<and> resizeAndApplyRoundedCorners L base radius pb 180 False = Inr p180
    \<and> z' = AList.update ''src/app/apple-icon.png'' (Binary p180)
             (AList.update ''src/app/icon.png'' (Binary p32) z)"
  using assms
  by (simp add: APP_SIZES_def app_filenames Let_def folder_file_def appFolder_def
      split: sum.splits)

lemma ico_loop_Inr:
  assumes "ico_loop L base radius pb ICO_SIZES [] = Inr bufs"
  shows "\<exists>p16 p32 p48.
      resizeAndApplyRoundedCorners L base radius pb 16 False = Inr p16
    \<and> resizeAndApplyRoundedCorners L base radius pb 32 False = Inr p32
    \<and> resizeAndApplyRoundedCorners L base radius pb 48 False = Inr p48
    \<and> bufs = [p16, p32, p48]"
  using assms
  by (simp add: ICO_SIZES_def split: sum.splits)

text \<open>When the part after validation returns, every library call has succeeded and the
  response is the archive of all thirteen entries.\<close>

lemma generate_Inr:
  assumes "generate L f radiusStr appName shortName themeColor = Inr resp"
  shows "\<exists>m base p16 p32 p48 p180 p192 p512 ogp ico zipBuffer radius pb.
      radius = fin_value (requested_radius (Number (StringToNumber L) radiusStr))
    \<and> sharp_metadata L (file_bytes f) = Inr m
    \<and> pb = previewBaseSize (or_default (fst m) 512) (or_default (snd m) 512)
    \<and> sharp_png L (file_bytes f) (opened_as f) = Inr base
    \<and> resizeAndApplyRoundedCorners L base radius pb 16 False = Inr p16
    \<and> resizeAndApplyRoundedCorners L base radius pb 32 False = Inr p32
    \<and> resizeAndApplyRoundedCorners L base radius pb 48 False = Inr p48
    \<and> resizeAndApplyRoundedCorners L base radius pb 180 False = Inr p180
    \<and> resizeAndApplyRoundedCorners L base radius pb 192 False = Inr p192
    \<and> resizeAndApplyRoundedCorners L base radius pb 512 False = Inr p512
    \<and> sharp_resize_png L base 1200 630 contain_options = Inr ogp
    \<and> toIco L [p16, p32, p48] = Inr ico
    \<and> generateAsync L
         (complete_archive p16 p32 p48 p180 p192 p512 ogp ico
            (ManifestJson appName shortName themeColor)
            (ReadmeText appName shortName themeColor radius
               (effectiveDisplayRadius radius pb))) = Inr zipBuffer
    \<and> resp = ZipResponse zipBuffer"
proof -
  define radius where "radius = fin_value (requested_radius (Number (StringToNumber L) radiusStr))"
  note unfold = generate_def Let_def opened_as_def [symmetric] radius_def [symmetric]
  obtain m where m: "sharp_metadata L (file_bytes f) = Inr m"
  proof (cases "sharp_metadata L (file_bytes f)")
    case (Inl e)
    with assms show ?thesis by (simp add: unfold)
  next
    case (Inr m)
    with that show ?thesis .
  qed
  define pb where "pb = previewBaseSize (or_default (fst m) 512) (or_default (snd m) 512)"
  note unfold = unfold m pb_def [symmetric]
  obtain base where base: "sharp_png L (file_bytes f) (opened_as f) = Inr base"
  proof (cases "sharp_png L (file_bytes f) (opened_as f)")
    case (Inl e)
    with assms show ?thesis by (simp add: unfold)
  next
    case (Inr base)
    with that show ?thesis .
  qed
  note unfold = unfold base
  obtain z1 where z1: "public_loop L base radius pb PUBLIC_SIZES [] = Inr z1"
  proof (cases "public_loop L base radius pb PUBLIC_SIZES []")
    case (Inl e)
    with assms show ?thesis by (simp add: unfold)
  next
    case (Inr z1)
    with that show ?thesis .
  qed
  note unfold = unfold z1
  obtain z2 where z2: "app_loop L base radius pb APP_SIZES z1 = Inr z2"
  proof (cases "app_loop L base radius pb APP_SIZES z1")
    case (Inl e)
    with assms show ?thesis by (simp add: unfold)
  next
    case (Inr z2)
    with that show ?thesis .
  qed
  note unfold = unfold z2
  obtain bufs where bufs: "ico_loop L base radius pb ICO_SIZES [] = Inr bufs"
  proof (cases "ico_loop L base radius pb ICO_SIZES []")
    case (Inl e)
    with assms show ?thesis by (simp add: unfold)
  next
    case (Inr bufs)
    with that show ?thesis .
  qed
  note unfold = unfold bufs
  obtain ico where ico: "toIco L bufs = Inr ico"
  proof (cases "toIco L bufs")
    case (Inl e)
    with assms show ?thesis by (simp add: unfold)
  next
    case (Inr ico)
    with that show ?thesis .
  qed
  note unfold = unfold ico
  let ?z6 = "AList.update ''README.txt''
       (ReadmeText appName shortName themeColor radius
          (effectiveDisplayRadius radius pb))
       (folder_file publicFolder ''site.webmanifest'' (ManifestJson appName shortName themeColor)
          (folder_file appFolder ''favicon.ico'' (Binary ico)
             (folder_file publicFolder ''favicon.ico'' (Binary ico) z2)))"
  obtain zipBuffer where
    zb: "generateAsync L ?z6 = Inr zipBuffer" and resp: "resp = ZipResponse zipBuffer"
  proof (cases "generateAsync L ?z6")
    case (Inl e)
    with assms show ?thesis by (simp add: unfold)
  next
    case (Inr zipBuffer)
    moreover from assms Inr have "resp = ZipResponse zipBuffer" by (simp add: unfold)
    ultimately show ?thesis using that by blast
  qed
  from public_loop_Inr [OF z1] obtain p16 p32 p48 p180 p192 p512 ogp where
    pub: "resizeAndApplyRoundedCorners L base radius pb 16 False = Inr p16"
      "resizeAndApplyRoundedCorners L base radius pb 32 False = Inr p32"
      "resizeAndApplyRoundedCorners L base radius pb 48 False = Inr p48"
      "resizeAndApplyRoundedCorners L base radius pb 180 False = Inr p180"
      "resizeAndApplyRoundedCorners L base radius pb 192 False = Inr p192"
      "resizeAndApplyRoundedCorners L base radius pb 512 False = Inr p512"
      "sharp_resize_png L base 1200 630 contain_options = Inr ogp"
    and z1_eq: "z1 = [(''public/favicon-16x16.png'', Binary p16),
            (''public/favicon-32x32.png'', Binary p32),
            (''public/favicon-48x48.png'', Binary p48),
            (''public/apple-touch-icon.png'', Binary p180),
            (''public/android-chrome-192x192.png'', Binary p192),
            (''public/android-chrome-512x512.png'', Binary p512),
            (''public/opengraph-image.png'', Binary ogp)]"
    by blast
  from app_loop_Inr [OF z2] pub have z2_eq:
    "z2 = AList.update ''src/app/apple-icon.png'' (Binary p180)
             (AList.update ''src/app/icon.png'' (Binary p32) z1)"
    by auto
  from ico_loop_Inr [OF bufs] pub have bufs_eq: "bufs = [p16, p32, p48]"
    by auto
  have z6_eq: "?z6 = complete_archive p16 p32 p48 p180 p192 p512 ogp ico
            (ManifestJson appName shortName themeColor)
            (ReadmeText appName shortName themeColor radius
               (effectiveDisplayRadius radius pb))"
    unfolding z2_eq z1_eq
    by (simp add: complete_archive_def folder_file_def publicFolder_def appFolder_def)
  note facts = radius_def pb_def m base pub ico [unfolded bufs_eq] zb [unfolded z6_eq] resp
  show ?thesis
    by (intro exI conjI) (rule facts)+
qed

lemma POST_validated:
  assumes "image_field formData = Some f" "file_size f \<le> MAX_FILE_SIZE"
    "file_type f \<in> set validTypes"
  shows "POST L (Inr formData) =
     (case generate L f (radius_field formData) (str_or (appName_field formData) ''My App'')
             (str_or (shortName_field formData) ''App'')
             (str_or (themeColor_field formData) ''#6366f1'') of
        Inl e \<Rightarrow> JsonResponse 500 (catch_body e)
      | Inr r \<Rightarrow> r)"
  using assms by (simp add: POST_def POST_try_def Let_def)

lemma POST_ZipResponse:
  assumes "POST L request = ZipResponse zipBuffer"
  shows "\<exists>formData f. request = Inr formData \<and> image_field formData = Some f
     \<and> file_size f \<le> MAX_FILE_SIZE \<and> file_type f \<in> set validTypes
     \<and> generate L f (radius_field formData) (str_or (appName_field formData) ''My App'')
             (str_or (shortName_field formData) ''App'')
             (str_or (themeColor_field formData) ''#6366f1'') = Inr (ZipResponse zipBuffer)"
proof (cases request)
  case (Inl e)
  with assms show ?thesis by (simp add: POST_def)
next
  case (Inr formData)
  show ?thesis
  proof (cases "image_field formData")
    case None
    with assms Inr show ?thesis by (simp add: POST_def POST_try_def Let_def)
  next
    case (Some f)
    show ?thesis
    proof (cases "file_size f \<le> MAX_FILE_SIZE \<and> file_type f \<in> set validTypes")
      case False
      with assms Inr Some show ?thesis
        by (auto simp: POST_def POST_try_def Let_def split: if_splits)
    next
      case True
      with assms Inr Some show ?thesis
        by (auto simp: POST_validated split: sum.splits)
    qed
  qed
qed

lemma resizeAndApplyRoundedCorners_cover:
  assumes "resizeAndApplyRoundedCorners L base radius pb sz False = Inr png"
  shows "\<exists>resized.
      sharp_resize_raw L base sz sz \<lparr>fit = Cover, background = None, kernel = Some Lanczos3\<rparr>
        = Inr resized
    \<and> sharp_raw_png L
        (applyRoundedCorners (raw_data resized) (info_width resized) (info_height resized)
           (effectiveRadius radius pb sz sz (info_width resized) (info_height resized)))
        (info_width resized) (info_height resized) = Inr png"
  using assms
  by (auto simp: resizeAndApplyRoundedCorners_def cover_options_def Let_def split: sum.splits)

text \<open>The sample libraries at work.\<close>

lemma sample_libs_simps:
  "StringToNumber sample_libs s =
     (if s = ''0'' then Fin 0 else if s = ''40'' then Fin 40 else NaN)"
  "sharp_metadata sample_libs input = Inr (Some 512, Some 512)"
  "sharp_png sample_libs input how = Inr input"
  "sharp_resize_raw sample_libs base w h opts =
     Inr \<lparr>raw_data = [255, 255, 255, 255], info_width = 1, info_height = 1\<rparr>"
  "sharp_resize_png sample_libs base w h opts = Inr [0, 0, 0, 0]"
  "sharp_raw_png sample_libs buf w h = Inr buf"
  "toIco sample_libs bufs = Inr (concat bufs)"
  "generateAsync sample_libs entries = Inr [80, 75, 3, 4]"
  by (simp_all add: sample_libs_def)

lemma sample_clamp:
  assumes "0 \<le> radius" "0 < pb" "0 \<le> sz"
  shows "effectiveRadius radius pb sz sz 1 1 = 0"
proof -
  have "0 \<le> scaledRadius radius pb sz sz"
    using assms by (rule scaledRadius_nonneg)
  moreover have "Math_floor (js_divide (of_int (min 1 1)) 2) = 0"
    by code_simp
  ultimately show ?thesis
    by (simp add: effectiveRadius_def)
qed

lemma sample_variant:
  assumes "0 \<le> radius" "0 < pb" "0 \<le> sz"
  shows "resizeAndApplyRoundedCorners sample_libs base radius pb sz False =
         Inr [255, 255, 255, 255]"
  using sample_clamp [OF assms]
  by (simp add: resizeAndApplyRoundedCorners_def sample_libs_simps Let_def
      applyRoundedCorners_def)

lemma sample_public_loop:
  assumes "0 \<le> radius" "0 < pb"
  shows "public_loop sample_libs base radius pb PUBLIC_SIZES [] =
     Inr [(''public/favicon-16x16.png'', Binary [255, 255, 255, 255]),
          (''public/favicon-32x32.png'', Binary [255, 255, 255, 255]),
          (''public/favicon-48x48.png'', Binary [255, 255, 255, 255]),
          (''public/apple-touch-icon.png'', Binary [255, 255, 255, 255]),
          (''public/android-chrome-192x192.png'', Binary [255, 255, 255, 255]),
          (''public/android-chrome-512x512.png'', Binary [255, 255, 255, 255]),
          (''public/opengraph-image.png'', Binary [0, 0, 0, 0])]"
  using assms
  by (simp add: PUBLIC_SIZES_def public_filenames sample_variant sample_libs_simps
      folder_file_def publicFolder_def Let_def)

lemma sample_app_loop:
  assumes "0 \<le> radius" "0 < pb"
  shows "app_loop sample_libs base radius pb APP_SIZES z =
     Inr (AList.update ''src/app/apple-icon.png'' (Binary [255, 255, 255, 255])
            (AList.update ''src/app/icon.png'' (Binary [255, 255, 255, 255]) z))"
  using assms
  by (simp add: APP_SIZES_def app_filenames sample_variant folder_file_def appFolder_def Let_def)

lemma sample_ico_loop:
  assumes "0 \<le> radius" "0 < pb"
  shows "ico_loop sample_libs base radius pb ICO_SIZES [] =
     Inr [[255, 255, 255, 255], [255, 255, 255, 255], [255, 255, 255, 255]]"
  using assms
  by (simp add: ICO_SIZES_def sample_variant)

lemma sample_generate:
  "generate sample_libs f radiusStr appName shortName themeColor =
     Inr (ZipResponse [80, 75, 3, 4])"
proof -
  have "0 \<le> fin_value (requested_radius (Number (StringToNumber sample_libs) radiusStr))"
    using requested_radius_finite
      [of "Number (StringToNumber sample_libs) radiusStr"] by auto
  moreover have "0 < previewBaseSize (or_default (Some 512) 512) (or_default (Some 512) 512)"
    by (rule previewBaseSize_positive)
  ultimately show ?thesis
    by (simp add: generate_def Let_def sample_libs_simps sample_public_loop sample_app_loop
        sample_ico_loop)
qed

lemma sample_POST:
  assumes "len \<le> MAX_FILE_SIZE" "mime \<in> set validTypes"
  shows "POST sample_libs (Inr (sample_form mime len radiusStr)) = ZipResponse [80, 75, 3, 4]"
  using assms
  by (simp add: POST_validated [where f = "\<lparr>file_size = len, file_type = mime, file_bytes = [1, 2, 3]\<rparr>"]
      sample_form_def sample_generate)

section \<open>The stages of the handler\<close>

lemma and_then_simps:
  "and_then (Inl e) k = Inl e"
  "and_then (Inr x) k = k x"
  by (simp_all add: and_then_def)

lemma resizeAndApplyRoundedCorners_square:
  "resizeAndApplyRoundedCorners L base radius pb sz False = square_variant L base radius pb sz"
  by (simp add: resizeAndApplyRoundedCorners_def square_variant_def cover_options_def Let_def
      and_then_def split: sum.splits)

lemma public_loop_stages:
  "public_loop L base radius pb PUBLIC_SIZES [] =
     and_then (square_variant L base radius pb 16) (\<lambda>p16.
     and_then (square_variant L base radius pb 32) (\<lambda>p32.
     and_then (square_variant L base radius pb 48) (\<lambda>p48.
     and_then (square_variant L base radius pb 180) (\<lambda>p180.
     and_then (square_variant L base radius pb 192) (\<lambda>p192.
     and_then (square_variant L base radius pb 512) (\<lambda>p512.
     and_then (preview_variant L base) (\<lambda>ogp.
     Inr [(''public/favicon-16x16.png'', Binary p16),
          (''public/favicon-32x32.png'', Binary p32),
          (''public/favicon-48x48.png'', Binary p48),
          (''public/apple-touch-icon.png'', Binary p180),
          (''public/android-chrome-192x192.png'', Binary p192),
          (''public/android-chrome-512x512.png'', Binary p512),
          (''public/opengraph-image.png'', Binary ogp)])))))))"
  by (simp add: PUBLIC_SIZES_def public_filenames Let_def folder_file_def publicFolder_def
      and_then_def resizeAndApplyRoundedCorners_square preview_variant_def contain_options_def
      split: sum.splits)

lemma app_loop_stages:
  "app_loop L base radius pb APP_SIZES z =
     and_then (square_variant L base radius pb 32) (\<lambda>p32.
     and_then (square_variant L base radius pb 180) (\<lambda>p180.
     Inr (AList.update ''src/app/apple-icon.png'' (Binary p180)
            (AList.update ''src/app/icon.png'' (Binary p32) z))))"
  by (simp add: APP_SIZES_def app_filenames Let_def folder_file_def appFolder_def
      and_then_def resizeAndApplyRoundedCorners_square split: sum.splits)

lemma ico_loop_stages:
  "ico_loop L base radius pb ICO_SIZES [] =
     and_then (square_variant L base radius pb 16) (\<lambda>p16.
     and_then (square_variant L base radius pb 32) (\<lambda>p32.
     and_then (square_variant L base radius pb 48) (\<lambda>p48.
     Inr [p16, p32, p48])))"
  by (simp add: ICO_SIZES_def and_then_def resizeAndApplyRoundedCorners_square split: sum.splits)

lemma generate_stages:
  "generate L f (radius_field formData) (str_or (appName_field formData) ''My App'')
     (str_or (shortName_field formData) ''App'') (str_or (themeColor_field formData) ''#6366f1'') =
   and_then (handler_stages L formData f) (\<lambda>zipBuffer. Inr (ZipResponse zipBuffer))"
proof -
  let ?radius = "fin_value (requested_radius (Number (StringToNumber L) (radius_field formData)))"
  note defs = generate_def handler_stages_def Let_def opened_as_def [symmetric]
    handler_radius_def reference_size_def public_loop_stages app_loop_stages ico_loop_stages
    and_then_simps
  show ?thesis
  proof (cases "sharp_metadata L (file_bytes f)")
    case (Inl e)
    then show ?thesis by (simp add: defs )
  next
    case s0: (Inr m)
    let ?pb = "previewBaseSize (or_default (fst m) 512) (or_default (snd m) 512)"
    show ?thesis
    proof (cases "sharp_png L (file_bytes f) (opened_as f)")
      case (Inl e)
      then show ?thesis by (simp add: defs s0)
    next
      case s1: (Inr base)
      show ?thesis
      proof (cases "square_variant L base ?radius ?pb 16")
        case (Inl e)
        then show ?thesis by (simp add: defs s0 s1)
      next
        case s2: (Inr p16)
        show ?thesis
        proof (cases "square_variant L base ?radius ?pb 32")
          case (Inl e)
          then show ?thesis by (simp add: defs s0 s1 s2)
        next
          case s3: (Inr p32)
          show ?thesis
          proof (cases "square_variant L base ?radius ?pb 48")
            case (Inl e)
            then show ?thesis by (simp add: defs s0 s1 s2 s3)
          next
            case s4: (Inr p48)
            show ?thesis
            proof (cases "square_variant L base ?radius ?pb 180")
              case (Inl e)
              then show ?thesis by (simp add: defs s0 s1 s2 s3 s4)
            next
              case s5: (Inr p180)
              show ?thesis
              proof (cases "square_variant L base ?radius ?pb 192")
                case (Inl e)
                then show ?thesis by (simp add: defs s0 s1 s2 s3 s4 s5)
              next
                case s6: (Inr p192)
                show ?thesis
                proof (cases "square_variant L base ?radius ?pb 512")
                  case (Inl e)
                  then show ?thesis by (simp add: defs s0 s1 s2 s3 s4 s5 s6)
                next
                  case s7: (Inr p512)
                  show ?thesis
                  proof (cases "preview_variant L base")
                    case (Inl e)
                    then show ?thesis by (simp add: defs s0 s1 s2 s3 s4 s5 s6 s7)
                  next
                    case s8: (Inr ogp)
                    show ?thesis
                    proof (cases "toIco L [p16, p32, p48]")
                      case (Inl e)
                      then show ?thesis by (simp add: defs s0 s1 s2 s3 s4 s5 s6 s7 s8)
                    next
                      case s9: (Inr ico)
                      show ?thesis
                      by (simp add: defs s0 s1 s2 s3 s4 s5 s6 s7 s8 s9 complete_archive_def folder_file_def publicFolder_def
                          appFolder_def and_then_def split: sum.splits)
                    qed
                  qed
                qed
              qed
            qed
          qed
        qed
      qed
    qed
  qed
qed


lemma POST_stages:
  assumes "image_field formData = Some f" "file_size f \<le> MAX_FILE_SIZE"
    "file_type f \<in> set validTypes"
  shows "POST L (Inr formData) =
     (case handler_stages L formData f of
        Inl e \<Rightarrow> JsonResponse 500 (catch_body e)
      | Inr zipBuffer \<Rightarrow> ZipResponse zipBuffer)"
  unfolding POST_validated [OF assms] generate_stages
  by (simp add: and_then_def split: sum.splits)

text \<open>The libraries with the white tile at work.\<close>

lemma tile_libs_simps:
  "StringToNumber tile_libs s = (if s = ''12'' then Fin 12 else NaN)"
  "sharp_metadata tile_libs input = Inr (Some 512, Some 512)"
  "sharp_png tile_libs input how = Inr input"
  "sharp_resize_raw tile_libs base w h opts =
     Inr \<lparr>raw_data = white_tile, info_width = 4, info_height = 4\<rparr>"
  "sharp_resize_png tile_libs base w h opts = Inr [0, 0, 0, 0]"
  "sharp_raw_png tile_libs buf w h = Inr buf"
  "toIco tile_libs bufs = Inr (concat bufs)"
  "generateAsync tile_libs entries = Inr (concat (map entry_bytes entries))"
  by (simp_all add: tile_libs_def sample_libs_def)

lemma no_ico_libs_simps:
  "StringToNumber no_ico_libs s = (if s = ''12'' then Fin 12 else NaN)"
  "sharp_metadata no_ico_libs input = Inr (Some 512, Some 512)"
  "sharp_png no_ico_libs input how = Inr input"
  "sharp_resize_raw no_ico_libs base w h opts =
     Inr \<lparr>raw_data = white_tile, info_width = 4, info_height = 4\<rparr>"
  "sharp_resize_png no_ico_libs base w h opts = Inr [0, 0, 0, 0]"
  "sharp_raw_png no_ico_libs buf w h = Inr buf"
  "toIco no_ico_libs bufs = Inl (ErrorObject ''Invalid image buffer'')"
  by (simp_all add: no_ico_libs_def tile_libs_def sample_libs_def)

lemma no_resize_libs_simps:
  "StringToNumber no_resize_libs s = (if s = ''12'' then Fin 12 else NaN)"
  "sharp_metadata no_resize_libs input = Inr (Some 512, Some 512)"
  "sharp_png no_resize_libs input how = Inr input"
  "sharp_resize_raw no_resize_libs base w h opts =
     (if w = 48 then Inl OtherValue
      else Inr \<lparr>raw_data = white_tile, info_width = 4, info_height = 4\<rparr>)"
  "sharp_raw_png no_resize_libs buf w h = Inr buf"
  by (simp_all add: no_resize_libs_def tile_libs_def sample_libs_def)

lemma tile_radius:
  "effectiveRadius 12 192 16 16 4 4 = 1"
  "effectiveRadius 12 192 32 32 4 4 = 2"
  "effectiveRadius 12 192 48 48 4 4 = 2"
  "effectiveRadius 12 192 180 180 4 4 = 2"
  "effectiveRadius 12 192 192 192 4 4 = 2"
  "effectiveRadius 12 192 512 512 4 4 = 2"
  by code_simp+

lemma tile_masks:
  "applyRoundedCorners white_tile 4 4 1 = corner_tile"
  "applyRoundedCorners white_tile 4 4 2 = masked_tile"
  by code_simp+

lemma tile_square:
  assumes "sharp_resize_raw L base sz sz
             \<lparr>fit = Cover, background = None, kernel = Some Lanczos3\<rparr>
           = Inr \<lparr>raw_data = white_tile, info_width = 4, info_height = 4\<rparr>"
    and "\<And>buf w h. sharp_raw_png L buf w h = Inr buf"
  shows "square_variant L base radius pb sz =
         Inr (applyRoundedCorners white_tile 4 4 (effectiveRadius radius pb sz sz 4 4))"
  by (simp add: square_variant_def assms and_then_simps)

lemma tile_square_variants:
  "square_variant tile_libs base 12 192 16 = Inr corner_tile"
  "square_variant tile_libs base 12 192 32 = Inr masked_tile"
  "square_variant tile_libs base 12 192 48 = Inr masked_tile"
  "square_variant tile_libs base 12 192 180 = Inr masked_tile"
  "square_variant tile_libs base 12 192 192 = Inr masked_tile"
  "square_variant tile_libs base 12 192 512 = Inr masked_tile"
  by (simp_all add: tile_square tile_libs_simps tile_radius tile_masks)

lemma no_ico_square_variants:
  "square_variant no_ico_libs base 12 192 16 = Inr corner_tile"
  "square_variant no_ico_libs base 12 192 32 = Inr masked_tile"
  "square_variant no_ico_libs base 12 192 48 = Inr masked_tile"
  "square_variant no_ico_libs base 12 192 180 = Inr masked_tile"
  "square_variant no_ico_libs base 12 192 192 = Inr masked_tile"
  "square_variant no_ico_libs base 12 192 512 = Inr masked_tile"
  by (simp_all add: tile_square no_ico_libs_simps tile_radius tile_masks)

lemma no_resize_square_variants:
  "square_variant no_resize_libs base 12 192 16 = Inr corner_tile"
  "square_variant no_resize_libs base 12 192 32 = Inr masked_tile"
  "square_variant no_resize_libs base 12 192 48 = Inl OtherValue"
  by (simp_all add: tile_square no_resize_libs_simps tile_radius tile_masks square_variant_def
      and_then_simps)

lemma reference_size_512: "reference_size (Some 512, Some 512) = 192"
  by (simp add: reference_size_def previewBaseSize_def or_default_def)

lemma tile_handler_radius:
  "handler_radius tile_libs (sample_form mime len (Some ''12'')) = 12"
  "handler_radius no_ico_libs (sample_form mime len (Some ''12'')) = 12"
  "handler_radius no_resize_libs (sample_form mime len (Some ''12'')) = 12"
  by (simp_all add: handler_radius_def sample_form_def Number_def requested_radius_simps
      tile_libs_simps no_ico_libs_simps no_resize_libs_simps)

lemma tile_stages:
  "handler_stages tile_libs (sample_form mime len (Some ''12'')) f = Inr tile_response"
  by (simp add: handler_stages_def and_then_simps tile_libs_simps tile_handler_radius
      reference_size_512 tile_square_variants preview_variant_def complete_archive_def
      entry_bytes_def tile_response_def)

lemma no_ico_stages:
  "handler_stages no_ico_libs (sample_form mime len (Some ''12'')) f =
     Inl (ErrorObject ''Invalid image buffer'')"
  by (simp add: handler_stages_def and_then_simps no_ico_libs_simps tile_handler_radius
      reference_size_512 no_ico_square_variants preview_variant_def)

lemma no_resize_stages:
  "handler_stages no_resize_libs (sample_form mime len (Some ''12'')) f = Inl OtherValue"
  by (simp add: handler_stages_def and_then_simps no_resize_libs_simps tile_handler_radius
      reference_size_512 no_resize_square_variants)

lemma corrupt_stages:
  "handler_stages corrupt_libs formData f = Inl (ErrorObject ''unsupported image format'')"
  by (simp add: handler_stages_def and_then_simps corrupt_libs_def)

lemma tile_POST:
  "POST tile_libs (Inr (sample_form ''image/png'' 1000 (Some ''12''))) = ZipResponse tile_response"
proof -
  let ?form = "sample_form ''image/png'' 1000 (Some ''12'')"
  let ?f = "\<lparr>file_size = 1000, file_type = ''image/png'', file_bytes = [1, 2, 3]\<rparr>"
  have "POST tile_libs (Inr ?form) =
     (case handler_stages tile_libs ?form ?f of
        Inl e \<Rightarrow> JsonResponse 500 (catch_body e)
      | Inr zipBuffer \<Rightarrow> ZipResponse zipBuffer)"
    by (rule POST_stages) (simp_all add: sample_form_def MAX_FILE_SIZE_def validTypes_def)
  then show ?thesis
    by (simp add: tile_stages)
qed

lemma corrupt_libs_metadata:
  "sharp_metadata corrupt_libs input = Inl (ErrorObject ''unsupported image format'')"
  by (simp add: corrupt_libs_def)

lemma generate_not_400:
  "generate L f radiusStr appName shortName themeColor \<noteq> Inr (JsonResponse code body)"
proof
  assume "generate L f radiusStr appName shortName themeColor = Inr (JsonResponse code body)"
  from generate_Inr [OF this] show False by auto
qed

section \<open>Validation\<close>

text \<open>
  C7, as amended. When the uploaded file is larger than 10 MiB, or its declared type is
  none of \<open>image/png\<close>, \<open>image/jpeg\<close>, \<open>image/jpg\<close> and \<open>image/svg+xml\<close>, the handler
  answers 400 with the validation message, whatever the libraries would do: no library
  is called and no archive is produced. A file of at most 10 MiB with one of the four
  types passes validation: the answer is not a 400.
\<close>

theorem POST_validation:
  "(image_field formData = Some f \<and> file_size f > MAX_FILE_SIZE \<longrightarrow>
      POST L (Inr formData) = JsonResponse 400 FileTooLarge)
   \<and> (image_field formData = Some f \<and> file_size f \<le> MAX_FILE_SIZE
        \<and> file_type f \<notin> set validTypes \<longrightarrow>
      POST L (Inr formData) = JsonResponse 400 UnsupportedType)
   \<and> (image_field formData = Some f \<and> file_size f \<le> MAX_FILE_SIZE
        \<and> file_type f \<in> set validTypes \<longrightarrow>
      (\<forall>body. POST L (Inr formData) \<noteq> JsonResponse 400 body))
   \<and> MAX_FILE_SIZE = 10 * 2 ^ 20
   \<and> set validTypes = {''image/png'', ''image/jpeg'', ''image/jpg'', ''image/svg+xml''}"
proof -
  have big: "POST L (Inr formData) = JsonResponse 400 FileTooLarge"
    if "image_field formData = Some f" "file_size f > MAX_FILE_SIZE"
    using that by (simp add: POST_def POST_try_def Let_def)
  have bad: "POST L (Inr formData) = JsonResponse 400 UnsupportedType"
    if "image_field formData = Some f" "file_size f \<le> MAX_FILE_SIZE"
      "file_type f \<notin> set validTypes"
    using that by (simp add: POST_def POST_try_def Let_def)
  have ok: "POST L (Inr formData) \<noteq> JsonResponse 400 body"
    if "image_field formData = Some f" "file_size f \<le> MAX_FILE_SIZE"
      "file_type f \<in> set validTypes" for body
    using generate_not_400 [of L f]
    by (auto simp: POST_validated [OF that] split: sum.splits)
  have "MAX_FILE_SIZE = 10 * 2 ^ 20"
    by (simp add: MAX_FILE_SIZE_def)
  moreover have "set validTypes = {''image/png'', ''image/jpeg'', ''image/jpg'', ''image/svg+xml''}"
    by (simp add: validTypes_def)
  ultimately show ?thesis using big bad ok by blast
qed

theorem POST_validation_witness:
  "POST sample_libs (Inr (sample_form ''image/png'' 10485761 None)) = JsonResponse 400 FileTooLarge
   \<and> POST sample_libs (Inr (sample_form ''text/plain'' 5 None)) = JsonResponse 400 UnsupportedType
   \<and> POST sample_libs (Inr (sample_form ''image/png'' 10485760 None)) \<noteq> JsonResponse 400 FileRequired
   \<and> POST sample_libs (Inr (sample_form ''image/png'' 10485760 None)) = ZipResponse [80, 75, 3, 4]"
proof -
  let ?f = "\<lambda>mime len. \<lparr>file_size = len, file_type = mime, file_bytes = [1, 2, 3]\<rparr>"
  have a: "POST sample_libs (Inr (sample_form ''image/png'' 10485761 None)) = JsonResponse 400 FileTooLarge"
    using POST_validation [of "sample_form ''image/png'' 10485761 None" "?f ''image/png'' 10485761" sample_libs]
    by (simp add: sample_form_def MAX_FILE_SIZE_def)
  have b: "POST sample_libs (Inr (sample_form ''text/plain'' 5 None)) = JsonResponse 400 UnsupportedType"
    using POST_validation [of "sample_form ''text/plain'' 5 None" "?f ''text/plain'' 5" sample_libs]
    by (simp add: sample_form_def MAX_FILE_SIZE_def validTypes_def)
  have c: "POST sample_libs (Inr (sample_form ''image/png'' 10485760 None)) \<noteq> JsonResponse 400 FileRequired"
    using POST_validation [of "sample_form ''image/png'' 10485760 None" "?f ''image/png'' 10485760" sample_libs]
    by (simp add: sample_form_def MAX_FILE_SIZE_def validTypes_def)
  have d: "POST sample_libs (Inr (sample_form ''image/png'' 10485760 None)) = ZipResponse [80, 75, 3, 4]"
    by (rule sample_POST) (simp_all add: MAX_FILE_SIZE_def validTypes_def)
  show ?thesis using a b c d by blast
qed

text \<open>
  C7 as stated fails for the type \<open>image/jpg\<close>: it is outside the three types of the
  claim, but it is the third entry of \<open>validTypes\<close>, and a small upload of that type is
  processed to an archive.
\<close>

theorem POST_jpg_counterexample:
  "''image/jpg'' \<notin> {''image/png'', ''image/jpeg'', ''image/svg+xml''}
   \<and> 1000 \<le> MAX_FILE_SIZE
   \<and> POST sample_libs (Inr (sample_form ''image/jpg'' 1000 None)) = ZipResponse [80, 75, 3, 4]"
proof -
  have "POST sample_libs (Inr (sample_form ''image/jpg'' 1000 None)) = ZipResponse [80, 75, 3, 4]"
    by (rule sample_POST) (simp_all add: MAX_FILE_SIZE_def validTypes_def)
  then show ?thesis by (simp add: MAX_FILE_SIZE_def)
qed

lemma handler_stages_Inr:
  assumes "handler_stages L formData f = Inr zipBuffer"
  shows "\<exists>m base p16 p32 p48 p180 p192 p512 ogp ico.
          sharp_metadata L (file_bytes f) = Inr m
        \<and> sharp_png L (file_bytes f) (opened_as f) = Inr base
        \<and> square_variant L base (handler_radius L formData) (reference_size m) 16 = Inr p16
        \<and> square_variant L base (handler_radius L formData) (reference_size m) 32 = Inr p32
        \<and> square_variant L base (handler_radius L formData) (reference_size m) 48 = Inr p48
        \<and> square_variant L base (handler_radius L formData) (reference_size m) 180 = Inr p180
        \<and> square_variant L base (handler_radius L formData) (reference_size m) 192 = Inr p192
        \<and> square_variant L base (handler_radius L formData) (reference_size m) 512 = Inr p512
        \<and> preview_variant L base = Inr ogp
        \<and> toIco L [p16, p32, p48] = Inr ico
        \<and> generateAsync L
            (complete_archive p16 p32 p48 p180 p192 p512 ogp ico
               (ManifestJson (str_or (appName_field formData) ''My App'')
                  (str_or (shortName_field formData) ''App'')
                  (str_or (themeColor_field formData) ''#6366f1''))
               (ReadmeText (str_or (appName_field formData) ''My App'')
                  (str_or (shortName_field formData) ''App'')
                  (str_or (themeColor_field formData) ''#6366f1'')
                  (handler_radius L formData)
                  (effectiveDisplayRadius (handler_radius L formData) (reference_size m)))) = Inr zipBuffer"
proof (cases "sharp_metadata L (file_bytes f)")
  case (Inl e)
  with assms show ?thesis by (simp add: handler_stages_def and_then_simps )
next
  case s0: (Inr m)
  show ?thesis
  proof (cases "sharp_png L (file_bytes f) (opened_as f)")
    case (Inl e)
    with assms show ?thesis by (simp add: handler_stages_def and_then_simps s0)
  next
    case s1: (Inr base)
    show ?thesis
    proof (cases "square_variant L base (handler_radius L formData) (reference_size m) 16")
      case (Inl e)
      with assms show ?thesis by (simp add: handler_stages_def and_then_simps s0 s1)
    next
      case s2: (Inr p16)
      show ?thesis
      proof (cases "square_variant L base (handler_radius L formData) (reference_size m) 32")
        case (Inl e)
        with assms show ?thesis by (simp add: handler_stages_def and_then_simps s0 s1 s2)
      next
        case s3: (Inr p32)
        show ?thesis
        proof (cases "square_variant L base (handler_radius L formData) (reference_size m) 48")
          case (Inl e)
          with assms show ?thesis by (simp add: handler_stages_def and_then_simps s0 s1 s2 s3)
        next
          case s4: (Inr p48)
          show ?thesis
          proof (cases "square_variant L base (handler_radius L formData) (reference_size m) 180")
            case (Inl e)
            with assms show ?thesis by (simp add: handler_stages_def and_then_simps s0 s1 s2 s3 s4)
          next
            case s5: (Inr p180)
            show ?thesis
            proof (cases "square_variant L base (handler_radius L formData) (reference_size m) 192")
              case (Inl e)
              with assms show ?thesis by (simp add: handler_stages_def and_then_simps s0 s1 s2 s3 s4 s5)
            next
              case s6: (Inr p192)
              show ?thesis
              proof (cases "square_variant L base (handler_radius L formData) (reference_size m) 512")
                case (Inl e)
                with assms show ?thesis by (simp add: handler_stages_def and_then_simps s0 s1 s2 s3 s4 s5 s6)
              next
                case s7: (Inr p512)
                show ?thesis
                proof (cases "preview_variant L base")
                  case (Inl e)
                  with assms show ?thesis by (simp add: handler_stages_def and_then_simps s0 s1 s2 s3 s4 s5 s6 s7)
                next
                  case s8: (Inr ogp)
                  show ?thesis
                  proof (cases "toIco L [p16, p32, p48]")
                    case (Inl e)
                    with assms show ?thesis by (simp add: handler_stages_def and_then_simps s0 s1 s2 s3 s4 s5 s6 s7 s8)
                  next
                    case s9: (Inr ico)
                    show ?thesis
                    proof -
                      from assms have last: "generateAsync L
                                (complete_archive p16 p32 p48 p180 p192 p512 ogp ico
                                   (ManifestJson (str_or (appName_field formData) ''My App'')
                                      (str_or (shortName_field formData) ''App'')
                                      (str_or (themeColor_field formData) ''#6366f1''))
                                   (ReadmeText (str_or (appName_field formData) ''My App'')
                                      (str_or (shortName_field formData) ''App'')
                                      (str_or (themeColor_field formData) ''#6366f1'')
                                      (handler_radius L formData)
                                      (effectiveDisplayRadius (handler_radius L formData) (reference_size m)))) = Inr zipBuffer"
                        by (simp add: handler_stages_def and_then_simps s0 s1 s2 s3 s4 s5 s6 s7 s8 s9)
                      note facts = s0 s1 s2 s3 s4 s5 s6 s7 s8 s9 last
                      show ?thesis
                        by (intro exI conjI) (rule facts)+
                    qed
                  qed
                qed
              qed
            qed
          qed
        qed
      qed
    qed
  qed
qed

lemma POST_Zip_stages:
  assumes "POST L request = ZipResponse zipBuffer"
  shows "\<exists>formData f m base p16 p32 p48 p180 p192 p512 ogp ico.
          request = Inr formData
        \<and> image_field formData = Some f \<and> file_size f \<le> MAX_FILE_SIZE
        \<and> file_type f \<in> set validTypes
        \<and> sharp_metadata L (file_bytes f) = Inr m
        \<and> sharp_png L (file_bytes f) (opened_as f) = Inr base
        \<and> square_variant L base (handler_radius L formData) (reference_size m) 16 = Inr p16
        \<and> square_variant L base (handler_radius L formData) (reference_size m) 32 = Inr p32
        \<and> square_variant L base (handler_radius L formData) (reference_size m) 48 = Inr p48
        \<and> square_variant L base (handler_radius L formData) (reference_size m) 180 = Inr p180
        \<and> square_variant L base (handler_radius L formData) (reference_size m) 192 = Inr p192
        \<and> square_variant L base (handler_radius L formData) (reference_size m) 512 = Inr p512
        \<and> preview_variant L base = Inr ogp
        \<and> toIco L [p16, p32, p48] = Inr ico
        \<and> generateAsync L
            (complete_archive p16 p32 p48 p180 p192 p512 ogp ico
               (ManifestJson (str_or (appName_field formData) ''My App'')
                  (str_or (shortName_field formData) ''App'')
                  (str_or (themeColor_field formData) ''#6366f1''))
               (ReadmeText (str_or (appName_field formData) ''My App'')
                  (str_or (shortName_field formData) ''App'')
                  (str_or (themeColor_field formData) ''#6366f1'')
                  (handler_radius L formData)
                  (effectiveDisplayRadius (handler_radius L formData) (reference_size m)))) = Inr zipBuffer"
proof -
  from POST_ZipResponse [OF assms] obtain formData f where
    req: "request = Inr formData" and upl: "image_field formData = Some f"
    and len: "file_size f \<le> MAX_FILE_SIZE" and type: "file_type f \<in> set validTypes"
    and gen: "generate L f (radius_field formData) (str_or (appName_field formData) ''My App'')
           (str_or (shortName_field formData) ''App'')
           (str_or (themeColor_field formData) ''#6366f1'') = Inr (ZipResponse zipBuffer)"
    by blast
  from gen have "and_then (handler_stages L formData f) (\<lambda>zipBuffer. Inr (ZipResponse zipBuffer))
      = Inr (ZipResponse zipBuffer)"
    by (simp only: generate_stages)
  then have run: "handler_stages L formData f = Inr zipBuffer"
    by (cases "handler_stages L formData f") (simp_all add: and_then_simps)
  from handler_stages_Inr [OF run] obtain m base p16 p32 p48 p180 p192 p512 ogp ico where
    st: "sharp_metadata L (file_bytes f) = Inr m"
      "sharp_png L (file_bytes f) (opened_as f) = Inr base"
      "square_variant L base (handler_radius L formData) (reference_size m) 16 = Inr p16"
      "square_variant L base (handler_radius L formData) (reference_size m) 32 = Inr p32"
      "square_variant L base (handler_radius L formData) (reference_size m) 48 = Inr p48"
      "square_variant L base (handler_radius L formData) (reference_size m) 180 = Inr p180"
      "square_variant L base (handler_radius L formData) (reference_size m) 192 = Inr p192"
      "square_variant L base (handler_radius L formData) (reference_size m) 512 = Inr p512"
      "preview_variant L base = Inr ogp"
      "toIco L [p16, p32, p48] = Inr ico"
      "generateAsync L
            (complete_archive p16 p32 p48 p180 p192 p512 ogp ico
               (ManifestJson (str_or (appName_field formData) ''My App'')
                  (str_or (shortName_field formData) ''App'')
                  (str_or (themeColor_field formData) ''#6366f1''))
               (ReadmeText (str_or (appName_field formData) ''My App'')
                  (str_or (shortName_field formData) ''App'')
                  (str_or (themeColor_field formData) ''#6366f1'')
                  (handler_radius L formData)
                  (effectiveDisplayRadius (handler_radius L formData) (reference_size m)))) = Inr zipBuffer"
    by blast
  note facts = req upl len type st
  show ?thesis
    by (intro exI conjI) (rule facts)+
qed

section \<open>All or nothing\<close>

text \<open>
  C8. For a request that passes validation the answer is decided by the stages of the
  handler in their order: decoding (metadata, then the PNG buffer), the six square
  variants (resize, mask, encode), the preview, the container of the 16, 32 and 48 pixel
  variants, and the archive. The first stage that throws ends the request with the single
  JSON error 500 carrying what was thrown, and nothing else is sent. An archive is answered
  exactly when every stage has succeeded, and it is then the archive generated from all
  thirteen entries, each made from the results of the stages before it: the seven PNG
  files of \<open>public/\<close>, the two of \<open>src/app/\<close>, the container under both names, the
  manifest and the README. Every answer is either one JSON error with status 400 or 500,
  or one archive.
\<close>

theorem POST_all_or_nothing:
  "(image_field formData = Some f \<and> file_size f \<le> MAX_FILE_SIZE
        \<and> file_type f \<in> set validTypes \<longrightarrow>
      POST L (Inr formData) =
        (case handler_stages L formData f of
           Inl e \<Rightarrow> JsonResponse 500 (catch_body e)
         | Inr zipBuffer \<Rightarrow> ZipResponse zipBuffer))
   \<and> ((\<exists>code body. POST L request = JsonResponse code body \<and> (code = 400 \<or> code = 500))
      \<or> (\<exists>zipBuffer. POST L request = ZipResponse zipBuffer))
   \<and> (POST L request = ZipResponse zipBuffer \<longrightarrow>
      (\<exists>formData f m base p16 p32 p48 p180 p192 p512 ogp ico.
          request = Inr formData
        \<and> image_field formData = Some f \<and> file_size f \<le> MAX_FILE_SIZE
        \<and> file_type f \<in> set validTypes
        \<and> sharp_metadata L (file_bytes f) = Inr m
        \<and> sharp_png L (file_bytes f) (opened_as f) = Inr base
        \<and> square_variant L base (handler_radius L formData) (reference_size m) 16 = Inr p16
        \<and> square_variant L base (handler_radius L formData) (reference_size m) 32 = Inr p32
        \<and> square_variant L base (handler_radius L formData) (reference_size m) 48 = Inr p48
        \<and> square_variant L base (handler_radius L formData) (reference_size m) 180 = Inr p180
        \<and> square_variant L base (handler_radius L formData) (reference_size m) 192 = Inr p192
        \<and> square_variant L base (handler_radius L formData) (reference_size m) 512 = Inr p512
        \<and> preview_variant L base = Inr ogp
        \<and> toIco L [p16, p32, p48] = Inr ico
        \<and> generateAsync L
            (complete_archive p16 p32 p48 p180 p192 p512 ogp ico
               (ManifestJson (str_or (appName_field formData) ''My App'')
                  (str_or (shortName_field formData) ''App'')
                  (str_or (themeColor_field formData) ''#6366f1''))
               (ReadmeText (str_or (appName_field formData) ''My App'')
                  (str_or (shortName_field formData) ''App'')
                  (str_or (themeColor_field formData) ''#6366f1'')
                  (handler_radius L formData)
                  (effectiveDisplayRadius (handler_radius L formData) (reference_size m)))) = Inr zipBuffer))
   \<and> (image_field formData = Some f \<and> file_size f \<le> MAX_FILE_SIZE
        \<and> file_type f \<in> set validTypes
        \<and> sharp_metadata L (file_bytes f) = Inr m
        \<and> sharp_png L (file_bytes f) (opened_as f) = Inr base
        \<and> square_variant L base (handler_radius L formData) (reference_size m) 16 = Inr p16
        \<and> square_variant L base (handler_radius L formData) (reference_size m) 32 = Inr p32
        \<and> square_variant L base (handler_radius L formData) (reference_size m) 48 = Inr p48
        \<and> square_variant L base (handler_radius L formData) (reference_size m) 180 = Inr p180
        \<and> square_variant L base (handler_radius L formData) (reference_size m) 192 = Inr p192
        \<and> square_variant L base (handler_radius L formData) (reference_size m) 512 = Inr p512
        \<and> preview_variant L base = Inr ogp
        \<and> toIco L [p16, p32, p48] = Inr ico
        \<and> generateAsync L
            (complete_archive p16 p32 p48 p180 p192 p512 ogp ico
               (ManifestJson (str_or (appName_field formData) ''My App'')
                  (str_or (shortName_field formData) ''App'')
                  (str_or (themeColor_field formData) ''#6366f1''))
               (ReadmeText (str_or (appName_field formData) ''My App'')
                  (str_or (shortName_field formData) ''App'')
                  (str_or (themeColor_field formData) ''#6366f1'')
                  (handler_radius L formData)
                  (effectiveDisplayRadius (handler_radius L formData) (reference_size m)))) = Inr zipBuffer \<longrightarrow>
      POST L (Inr formData) = ZipResponse zipBuffer)
   \<and> map fst (complete_archive p16 p32 p48 p180 p192 p512 ogp ico manifest readme)
       = all_entry_names
   \<and> (image_field formData = Some f \<and> file_size f \<le> MAX_FILE_SIZE
        \<and> file_type f \<in> set validTypes
        \<and> sharp_metadata L (file_bytes f) = Inl e \<longrightarrow>
      POST L (Inr formData) = JsonResponse 500 (catch_body e))
   \<and> (image_field formData = Some f \<and> file_size f \<le> MAX_FILE_SIZE
        \<and> file_type f \<in> set validTypes
        \<and> sharp_metadata L (file_bytes f) = Inr m
        \<and> sharp_png L (file_bytes f) (opened_as f) = Inl e \<longrightarrow>
      POST L (Inr formData) = JsonResponse 500 (catch_body e))
   \<and> (image_field formData = Some f \<and> file_size f \<le> MAX_FILE_SIZE
        \<and> file_type f \<in> set validTypes
        \<and> sharp_metadata L (file_bytes f) = Inr m
        \<and> sharp_png L (file_bytes f) (opened_as f) = Inr base
        \<and> sz \<in> set [16, 32, 48, 180, 192, 512]
        \<and> (\<forall>s \<in> set [16, 32, 48, 180, 192, 512]. s < sz \<longrightarrow>
              (\<exists>p. square_variant L base (handler_radius L formData) (reference_size m) s = Inr p))
        \<and> square_variant L base (handler_radius L formData) (reference_size m) sz = Inl e \<longrightarrow>
      POST L (Inr formData) = JsonResponse 500 (catch_body e))
   \<and> (square_variant L base radius pb sz = Inl e \<longleftrightarrow>
        sharp_resize_raw L base sz sz cover_options = Inl e
        \<or> (\<exists>resized. sharp_resize_raw L base sz sz cover_options = Inr resized
              \<and> sharp_raw_png L
                    (applyRoundedCorners (raw_data resized) (info_width resized)
                       (info_height resized)
                       (effectiveRadius radius pb sz sz (info_width resized)
                          (info_height resized)))
                    (info_width resized) (info_height resized) = Inl e))
   \<and> (image_field formData = Some f \<and> file_size f \<le> MAX_FILE_SIZE
        \<and> file_type f \<in> set validTypes
        \<and> sharp_metadata L (file_bytes f) = Inr m
        \<and> sharp_png L (file_bytes f) (opened_as f) = Inr base
        \<and> square_variant L base (handler_radius L formData) (reference_size m) 16 = Inr p16
        \<and> square_variant L base (handler_radius L formData) (reference_size m) 32 = Inr p32
        \<and> square_variant L base (handler_radius L formData) (reference_size m) 48 = Inr p48
        \<and> square_variant L base (handler_radius L formData) (reference_size m) 180 = Inr p180
        \<and> square_variant L base (handler_radius L formData) (reference_size m) 192 = Inr p192
        \<and> square_variant L base (handler_radius L formData) (reference_size m) 512 = Inr p512
        \<and> preview_variant L base = Inl e \<longrightarrow>
      POST L (Inr formData) = JsonResponse 500 (catch_body e))
   \<and> (image_field formData = Some f \<and> file_size f \<le> MAX_FILE_SIZE
        \<and> file_type f \<in> set validTypes
        \<and> sharp_metadata L (file_bytes f) = Inr m
        \<and> sharp_png L (file_bytes f) (opened_as f) = Inr base
        \<and> square_variant L base (handler_radius L formData) (reference_size m) 16 = Inr p16
        \<and> square_variant L base (handler_radius L formData) (reference_size m) 32 = Inr p32
        \<and> square_variant L base (handler_radius L formData) (reference_size m) 48 = Inr p48
        \<and> square_variant L base (handler_radius L formData) (reference_size m) 180 = Inr p180
        \<and> square_variant L base (handler_radius L formData) (reference_size m) 192 = Inr p192
        \<and> square_variant L base (handler_radius L formData) (reference_size m) 512 = Inr p512
        \<and> preview_variant L base = Inr ogp
        \<and> toIco L [p16, p32, p48] = Inl e \<longrightarrow>
      POST L (Inr formData) = JsonResponse 500 (catch_body e))
   \<and> (image_field formData = Some f \<and> file_size f \<le> MAX_FILE_SIZE
        \<and> file_type f \<in> set validTypes
        \<and> sharp_metadata L (file_bytes f) = Inr m
        \<and> sharp_png L (file_bytes f) (opened_as f) = Inr base
        \<and> square_variant L base (handler_radius L formData) (reference_size m) 16 = Inr p16
        \<and> square_variant L base (handler_radius L formData) (reference_size m) 32 = Inr p32
        \<and> square_variant L base (handler_radius L formData) (reference_size m) 48 = Inr p48
        \<and> square_variant L base (handler_radius L formData) (reference_size m) 180 = Inr p180
        \<and> square_variant L base (handler_radius L formData) (reference_size m) 192 = Inr p192
        \<and> square_variant L base (handler_radius L formData) (reference_size m) 512 = Inr p512
        \<and> preview_variant L base = Inr ogp
        \<and> toIco L [p16, p32, p48] = Inr ico
        \<and> generateAsync L
            (complete_archive p16 p32 p48 p180 p192 p512 ogp ico
               (ManifestJson (str_or (appName_field formData) ''My App'')
                  (str_or (shortName_field formData) ''App'')
                  (str_or (themeColor_field formData) ''#6366f1''))
               (ReadmeText (str_or (appName_field formData) ''My App'')
                  (str_or (shortName_field formData) ''App'')
                  (str_or (themeColor_field formData) ''#6366f1'')
                  (handler_radius L formData)
                  (effectiveDisplayRadius (handler_radius L formData) (reference_size m)))) = Inl e \<longrightarrow>
      POST L (Inr formData) = JsonResponse 500 (catch_body e))
   \<and> catch_body (ErrorObject msg) = ErrorMessage msg \<and> catch_body OtherValue = GenerationFailed"
proof -
  have valid: "POST L (Inr formData) =
        (case handler_stages L formData f of
           Inl e \<Rightarrow> JsonResponse 500 (catch_body e)
         | Inr zipBuffer \<Rightarrow> ZipResponse zipBuffer)"
    if "image_field formData = Some f" "file_size f \<le> MAX_FILE_SIZE"
      "file_type f \<in> set validTypes"
    using that by (rule POST_stages)
  have stages: "(image_field formData = Some f \<and> file_size f \<le> MAX_FILE_SIZE
        \<and> file_type f \<in> set validTypes \<longrightarrow>
      POST L (Inr formData) =
        (case handler_stages L formData f of
           Inl e \<Rightarrow> JsonResponse 500 (catch_body e)
         | Inr zipBuffer \<Rightarrow> ZipResponse zipBuffer))"
    using valid by blast
  have only: "(POST L request = ZipResponse zipBuffer \<longrightarrow>
      (\<exists>formData f m base p16 p32 p48 p180 p192 p512 ogp ico.
          request = Inr formData
        \<and> image_field formData = Some f \<and> file_size f \<le> MAX_FILE_SIZE
        \<and> file_type f \<in> set validTypes
        \<and> sharp_metadata L (file_bytes f) = Inr m
        \<and> sharp_png L (file_bytes f) (opened_as f) = Inr base
        \<and> square_variant L base (handler_radius L formData) (reference_size m) 16 = Inr p16
        \<and> square_variant L base (handler_radius L formData) (reference_size m) 32 = Inr p32
        \<and> square_variant L base (handler_radius L formData) (reference_size m) 48 = Inr p48
        \<and> square_variant L base (handler_radius L formData) (reference_size m) 180 = Inr p180
        \<and> square_variant L base (handler_radius L formData) (reference_size m) 192 = Inr p192
        \<and> square_variant L base (handler_radius L formData) (reference_size m) 512 = Inr p512
        \<and> preview_variant L base = Inr ogp
        \<and> toIco L [p16, p32, p48] = Inr ico
        \<and> generateAsync L
            (complete_archive p16 p32 p48 p180 p192 p512 ogp ico
               (ManifestJson (str_or (appName_field formData) ''My App'')
                  (str_or (shortName_field formData) ''App'')
                  (str_or (themeColor_field formData) ''#6366f1''))
               (ReadmeText (str_or (appName_field formData) ''My App'')
                  (str_or (shortName_field formData) ''App'')
                  (str_or (themeColor_field formData) ''#6366f1'')
                  (handler_radius L formData)
                  (effectiveDisplayRadius (handler_radius L formData) (reference_size m)))) = Inr zipBuffer))"
    using POST_Zip_stages [of L request zipBuffer] by blast
  have dichotomy: "((\<exists>code body. POST L request = JsonResponse code body \<and> (code = 400 \<or> code = 500))
      \<or> (\<exists>zipBuffer. POST L request = ZipResponse zipBuffer))"
  proof (cases "POST L request")
    case (ZipResponse zb)
    then show ?thesis by blast
  next
    case (JsonResponse code body)
    have "code = 400 \<or> code = 500"
    proof (cases request)
      case (Inl e)
      with JsonResponse show ?thesis by (simp add: POST_def)
    next
      case (Inr formData)
      show ?thesis
      proof (cases "image_field formData")
        case None
        with JsonResponse Inr show ?thesis by (simp add: POST_def POST_try_def Let_def)
      next
        case (Some f)
        show ?thesis
        proof (cases "file_size f \<le> MAX_FILE_SIZE \<and> file_type f \<in> set validTypes")
          case False
          with JsonResponse Inr Some show ?thesis
            by (auto simp: POST_def POST_try_def Let_def split: if_splits)
        next
          case True
          with JsonResponse Inr Some show ?thesis
            by (auto simp: POST_stages split: sum.splits)
        qed
      qed
    qed
    with JsonResponse show ?thesis by blast
  qed
  have whole: "(image_field formData = Some f \<and> file_size f \<le> MAX_FILE_SIZE
        \<and> file_type f \<in> set validTypes
        \<and> sharp_metadata L (file_bytes f) = Inr m
        \<and> sharp_png L (file_bytes f) (opened_as f) = Inr base
        \<and> square_variant L base (handler_radius L formData) (reference_size m) 16 = Inr p16
        \<and> square_variant L base (handler_radius L formData) (reference_size m) 32 = Inr p32
        \<and> square_variant L base (handler_radius L formData) (reference_size m) 48 = Inr p48
        \<and> square_variant L base (handler_radius L formData) (reference_size m) 180 = Inr p180
        \<and> square_variant L base (handler_radius L formData) (reference_size m) 192 = Inr p192
        \<and> square_variant L base (handler_radius L formData) (reference_size m) 512 = Inr p512
        \<and> preview_variant L base = Inr ogp
        \<and> toIco L [p16, p32, p48] = Inr ico
        \<and> generateAsync L
            (complete_archive p16 p32 p48 p180 p192 p512 ogp ico
               (ManifestJson (str_or (appName_field formData) ''My App'')
                  (str_or (shortName_field formData) ''App'')
                  (str_or (themeColor_field formData) ''#6366f1''))
               (ReadmeText (str_or (appName_field formData) ''My App'')
                  (str_or (shortName_field formData) ''App'')
                  (str_or (themeColor_field formData) ''#6366f1'')
                  (handler_radius L formData)
                  (effectiveDisplayRadius (handler_radius L formData) (reference_size m)))) = Inr zipBuffer \<longrightarrow>
      POST L (Inr formData) = ZipResponse zipBuffer)"
    by (simp add: POST_stages handler_stages_def and_then_simps)
  have names: "map fst (complete_archive p16 p32 p48 p180 p192 p512 ogp ico manifest readme)
       = all_entry_names"
    by (simp add: complete_archive_def all_entry_names_def)
  have meta: "(image_field formData = Some f \<and> file_size f \<le> MAX_FILE_SIZE
        \<and> file_type f \<in> set validTypes
        \<and> sharp_metadata L (file_bytes f) = Inl e \<longrightarrow>
      POST L (Inr formData) = JsonResponse 500 (catch_body e))"
    by (simp add: POST_stages handler_stages_def and_then_simps)
  have png: "(image_field formData = Some f \<and> file_size f \<le> MAX_FILE_SIZE
        \<and> file_type f \<in> set validTypes
        \<and> sharp_metadata L (file_bytes f) = Inr m
        \<and> sharp_png L (file_bytes f) (opened_as f) = Inl e \<longrightarrow>
      POST L (Inr formData) = JsonResponse 500 (catch_body e))"
    by (simp add: POST_stages handler_stages_def and_then_simps)
  have square: "(image_field formData = Some f \<and> file_size f \<le> MAX_FILE_SIZE
        \<and> file_type f \<in> set validTypes
        \<and> sharp_metadata L (file_bytes f) = Inr m
        \<and> sharp_png L (file_bytes f) (opened_as f) = Inr base
        \<and> sz \<in> set [16, 32, 48, 180, 192, 512]
        \<and> (\<forall>s \<in> set [16, 32, 48, 180, 192, 512]. s < sz \<longrightarrow>
              (\<exists>p. square_variant L base (handler_radius L formData) (reference_size m) s = Inr p))
        \<and> square_variant L base (handler_radius L formData) (reference_size m) sz = Inl e \<longrightarrow>
      POST L (Inr formData) = JsonResponse 500 (catch_body e))"
    by (auto simp: POST_stages handler_stages_def and_then_simps)
  have parts: "(square_variant L base radius pb sz = Inl e \<longleftrightarrow>
        sharp_resize_raw L base sz sz cover_options = Inl e
        \<or> (\<exists>resized. sharp_resize_raw L base sz sz cover_options = Inr resized
              \<and> sharp_raw_png L
                    (applyRoundedCorners (raw_data resized) (info_width resized)
                       (info_height resized)
                       (effectiveRadius radius pb sz sz (info_width resized)
                          (info_height resized)))
                    (info_width resized) (info_height resized) = Inl e))"
    by (auto simp: square_variant_def and_then_def cover_options_def split: sum.splits)
  have preview: "(image_field formData = Some f \<and> file_size f \<le> MAX_FILE_SIZE
        \<and> file_type f \<in> set validTypes
        \<and> sharp_metadata L (file_bytes f) = Inr m
        \<and> sharp_png L (file_bytes f) (opened_as f) = Inr base
        \<and> square_variant L base (handler_radius L formData) (reference_size m) 16 = Inr p16
        \<and> square_variant L base (handler_radius L formData) (reference_size m) 32 = Inr p32
        \<and> square_variant L base (handler_radius L formData) (reference_size m) 48 = Inr p48
        \<and> square_variant L base (handler_radius L formData) (reference_size m) 180 = Inr p180
        \<and> square_variant L base (handler_radius L formData) (reference_size m) 192 = Inr p192
        \<and> square_variant L base (handler_radius L formData) (reference_size m) 512 = Inr p512
        \<and> preview_variant L base = Inl e \<longrightarrow>
      POST L (Inr formData) = JsonResponse 500 (catch_body e))"
    by (simp add: POST_stages handler_stages_def and_then_simps)
  have ico: "(image_field formData = Some f \<and> file_size f \<le> MAX_FILE_SIZE
        \<and> file_type f \<in> set validTypes
        \<and> sharp_metadata L (file_bytes f) = Inr m
        \<and> sharp_png L (file_bytes f) (opened_as f) = Inr base
        \<and> square_variant L base (handler_radius L formData) (reference_size m) 16 = Inr p16
        \<and> square_variant L base (handler_radius L formData) (reference_size m) 32 = Inr p32
        \<and> square_variant L base (handler_radius L formData) (reference_size m) 48 = Inr p48
        \<and> square_variant L base (handler_radius L formData) (reference_size m) 180 = Inr p180
        \<and> square_variant L base (handler_radius L formData) (reference_size m) 192 = Inr p192
        \<and> square_variant L base (handler_radius L formData) (reference_size m) 512 = Inr p512
        \<and> preview_variant L base = Inr ogp
        \<and> toIco L [p16, p32, p48] = Inl e \<longrightarrow>
      POST L (Inr formData) = JsonResponse 500 (catch_body e))"
    by (simp add: POST_stages handler_stages_def and_then_simps)
  have archive: "(image_field formData = Some f \<and> file_size f \<le> MAX_FILE_SIZE
        \<and> file_type f \<in> set validTypes
        \<and> sharp_metadata L (file_bytes f) = Inr m
        \<and> sharp_png L (file_bytes f) (opened_as f) = Inr base
        \<and> square_variant L base (handler_radius L formData) (reference_size m) 16 = Inr p16
        \<and> square_variant L base (handler_radius L formData) (reference_size m) 32 = Inr p32
        \<and> square_variant L base (handler_radius L formData) (reference_size m) 48 = Inr p48
        \<and> square_variant L base (handler_radius L formData) (reference_size m) 180 = Inr p180
        \<and> square_variant L base (handler_radius L formData) (reference_size m) 192 = Inr p192
        \<and> square_variant L base (handler_radius L formData) (reference_size m) 512 = Inr p512
        \<and> preview_variant L base = Inr ogp
        \<and> toIco L [p16, p32, p48] = Inr ico
        \<and> generateAsync L
            (complete_archive p16 p32 p48 p180 p192 p512 ogp ico
               (ManifestJson (str_or (appName_field formData) ''My App'')
                  (str_or (shortName_field formData) ''App'')
                  (str_or (themeColor_field formData) ''#6366f1''))
               (ReadmeText (str_or (appName_field formData) ''My App'')
                  (str_or (shortName_field formData) ''App'')
                  (str_or (themeColor_field formData) ''#6366f1'')
                  (handler_radius L formData)
                  (effectiveDisplayRadius (handler_radius L formData) (reference_size m)))) = Inl e \<longrightarrow>
      POST L (Inr formData) = JsonResponse 500 (catch_body e))"
    by (simp add: POST_stages handler_stages_def and_then_simps)
  have catch: "catch_body (ErrorObject msg) = ErrorMessage msg"
    "catch_body OtherValue = GenerationFailed"
    by (simp_all add: catch_body_def)
  note facts = stages dichotomy only whole names meta png square parts preview ico archive catch
  show ?thesis
    by (intro conjI) (rule facts)+
qed

text \<open>
  Four runs of a valid request. With a source that does not decode the answer is the
  decoder's message. With a resizer that throws a value that is not an \<open>Error\<close> at the
  third variant, after two variants have been made, the answer is the fallback message.
  With a container encoder that throws after all variants and the preview have been made,
  the answer is its message. With libraries that all succeed the answer is the archive,
  and its bytes are those of the thirteen entries.
\<close>

theorem POST_all_or_nothing_witness:
  "POST corrupt_libs (Inr (sample_form ''image/png'' 1000 None)) =
     JsonResponse 500 (ErrorMessage ''unsupported image format'')
   \<and> square_variant no_resize_libs [1, 2, 3] 12 192 16 = Inr corner_tile
   \<and> square_variant no_resize_libs [1, 2, 3] 12 192 32 = Inr masked_tile
   \<and> square_variant no_resize_libs [1, 2, 3] 12 192 48 = Inl OtherValue
   \<and> POST no_resize_libs (Inr (sample_form ''image/png'' 1000 (Some ''12''))) =
       JsonResponse 500 GenerationFailed
   \<and> toIco no_ico_libs [corner_tile, masked_tile, masked_tile] =
       Inl (ErrorObject ''Invalid image buffer'')
   \<and> POST no_ico_libs (Inr (sample_form ''image/png'' 1000 (Some ''12''))) =
       JsonResponse 500 (ErrorMessage ''Invalid image buffer'')
   \<and> POST tile_libs (Inr (sample_form ''image/png'' 1000 (Some ''12''))) =
       ZipResponse tile_response
   \<and> length tile_response = 900"
proof -
  let ?f = "\<lparr>file_size = 1000, file_type = ''image/png'', file_bytes = [1, 2, 3]\<rparr>"
  let ?none = "sample_form ''image/png'' 1000 None"
  let ?form = "sample_form ''image/png'' 1000 (Some ''12'')"
  let ?m = "(Some 512, Some 512) :: nat option \<times> nat option"
  let ?ico = "concat [corner_tile, masked_tile, masked_tile]"
  have fields: "image_field (sample_form ''image/png'' 1000 r) = Some ?f"
    "appName_field (sample_form ''image/png'' 1000 r) = None"
    "shortName_field (sample_form ''image/png'' 1000 r) = None"
    "themeColor_field (sample_form ''image/png'' 1000 r) = None" for r
    by (simp_all add: sample_form_def)
  have valid: "1000 \<le> MAX_FILE_SIZE" "''image/png'' \<in> set validTypes"
    "opened_as ?f = Direct"
    by (simp_all add: MAX_FILE_SIZE_def validTypes_def opened_as_def)
  note t1 = POST_all_or_nothing [where L = corrupt_libs and formData = ?none and f = ?f
      and e = "ErrorObject ''unsupported image format''"]
  note meta = t1 [THEN conjunct2, THEN conjunct2, THEN conjunct2, THEN conjunct2,
      THEN conjunct2, THEN conjunct1]
  have a: "POST corrupt_libs (Inr ?none) =
     JsonResponse 500 (ErrorMessage ''unsupported image format'')"
    using meta by (simp add: fields valid corrupt_libs_metadata catch_body_def)
  note t2 = POST_all_or_nothing [where L = no_resize_libs and formData = ?form and f = ?f
      and m = ?m and base = "[1, 2, 3]" and sz = 48 and e = OtherValue]
  note square = t2 [THEN conjunct2, THEN conjunct2, THEN conjunct2, THEN conjunct2,
      THEN conjunct2, THEN conjunct2, THEN conjunct2, THEN conjunct1]
  have b: "POST no_resize_libs (Inr ?form) = JsonResponse 500 GenerationFailed"
    using square
    by (simp add: fields valid no_resize_libs_simps tile_handler_radius reference_size_512
        no_resize_square_variants catch_body_def)
  note t3 = POST_all_or_nothing [where L = no_ico_libs and formData = ?form and f = ?f
      and m = ?m and base = "[1, 2, 3]" and ?p16.0 = corner_tile and ?p32.0 = masked_tile
      and ?p48.0 = masked_tile and ?p180.0 = masked_tile and ?p192.0 = masked_tile
      and ?p512.0 = masked_tile and ogp = "[0, 0, 0, 0]"
      and e = "ErrorObject ''Invalid image buffer''"]
  note ico = t3 [THEN conjunct2, THEN conjunct2, THEN conjunct2, THEN conjunct2,
      THEN conjunct2, THEN conjunct2, THEN conjunct2, THEN conjunct2, THEN conjunct2,
      THEN conjunct2, THEN conjunct1]
  have c: "POST no_ico_libs (Inr ?form) = JsonResponse 500 (ErrorMessage ''Invalid image buffer'')"
    using ico
    by (simp add: fields valid no_ico_libs_simps tile_handler_radius reference_size_512
        no_ico_square_variants preview_variant_def catch_body_def)
  note t4 = POST_all_or_nothing [where L = tile_libs and formData = ?form and f = ?f
      and m = ?m and base = "[1, 2, 3]" and ?p16.0 = corner_tile and ?p32.0 = masked_tile
      and ?p48.0 = masked_tile and ?p180.0 = masked_tile and ?p192.0 = masked_tile
      and ?p512.0 = masked_tile and ogp = "[0, 0, 0, 0]" and ico = ?ico
      and zipBuffer = tile_response]
  note whole = t4 [THEN conjunct2, THEN conjunct2, THEN conjunct2, THEN conjunct1]
  have d: "POST tile_libs (Inr ?form) = ZipResponse tile_response"
    using whole
    by (simp add: fields valid tile_libs_simps tile_handler_radius reference_size_512
        tile_square_variants preview_variant_def complete_archive_def entry_bytes_def
        tile_response_def)
  have e: "length tile_response = 900"
    by (simp add: tile_response_def corner_tile_def masked_tile_def)
  note facts = a no_resize_square_variants [of "[1, 2, 3]"] b no_ico_libs_simps(7) c d e
  show ?thesis
    by (intro conjI) (rule facts)+
qed

section \<open>Fit and masking of the variants\<close>

text \<open>
  C9. Whenever the handler answers with an archive, the entry
  \<open>public/opengraph-image.png\<close> is what the resizer gives for the decoded source at
  1200 by 630 with fit \<open>contain\<close> and a fully transparent background, encoded as it is:
  \<open>applyRoundedCorners\<close> has no part in it. Each square entry, at 16, 32, 48, 180, 192
  and 512 in \<open>public/\<close> and at 32 and 180 in \<open>src/app/\<close>, is the result of the resizer
  with fit \<open>cover\<close> at that size, masked by \<open>applyRoundedCorners\<close> with the effective
  radius of that size, and then encoded. The archive has the thirteen entries of a
  complete one.
\<close>

theorem variants_fit_and_masking:
  assumes "POST L request = ZipResponse zipBuffer"
  shows "\<exists>formData f m base zipfile.
      request = Inr formData
    \<and> image_field formData = Some f
    \<and> sharp_metadata L (file_bytes f) = Inr m
    \<and> sharp_png L (file_bytes f) (opened_as f) = Inr base
    \<and> generateAsync L zipfile = Inr zipBuffer
    \<and> map fst zipfile = all_entry_names
    \<and> (\<exists>ogpImage.
          sharp_resize_png L base 1200 630
            \<lparr>fit = Contain, background = Some (0, 0, 0, 0), kernel = Some Lanczos3\<rparr>
            = Inr ogpImage
        \<and> map_of zipfile ''public/opengraph-image.png'' = Some (Binary ogpImage))
    \<and> (\<forall>(path, sz) \<in> set square_variants. \<exists>resized png.
          sharp_resize_raw L base sz sz
            \<lparr>fit = Cover, background = None, kernel = Some Lanczos3\<rparr> = Inr resized
        \<and> sharp_raw_png L
            (applyRoundedCorners (raw_data resized) (info_width resized) (info_height resized)
               (effectiveRadius
                  (fin_value (requested_radius
                     (Number (StringToNumber L) (radius_field formData))))
                  (previewBaseSize (or_default (fst m) 512) (or_default (snd m) 512))
                  sz sz (info_width resized) (info_height resized)))
            (info_width resized) (info_height resized) = Inr png
        \<and> map_of zipfile path = Some (Binary png))"
proof -
  from POST_ZipResponse [OF assms] obtain formData f where
    req: "request = Inr formData" "image_field formData = Some f"
    and gen: "generate L f (radius_field formData) (str_or (appName_field formData) ''My App'')
           (str_or (shortName_field formData) ''App'')
           (str_or (themeColor_field formData) ''#6366f1'') = Inr (ZipResponse zipBuffer)"
    by blast
  define radius where
    "radius = fin_value (requested_radius (Number (StringToNumber L) (radius_field formData)))"
  from generate_Inr [OF gen] obtain m base p16 p32 p48 p180 p192 p512 ogp ico zb
    manifest readme where
    m: "sharp_metadata L (file_bytes f) = Inr m"
    and base: "sharp_png L (file_bytes f) (opened_as f) = Inr base"
    and v: "resizeAndApplyRoundedCorners L base radius
              (previewBaseSize (or_default (fst m) 512) (or_default (snd m) 512)) 16 False = Inr p16"
      "resizeAndApplyRoundedCorners L base radius
              (previewBaseSize (or_default (fst m) 512) (or_default (snd m) 512)) 32 False = Inr p32"
      "resizeAndApplyRoundedCorners L base radius
              (previewBaseSize (or_default (fst m) 512) (or_default (snd m) 512)) 48 False = Inr p48"
      "resizeAndApplyRoundedCorners L base radius
              (previewBaseSize (or_default (fst m) 512) (or_default (snd m) 512)) 180 False = Inr p180"
      "resizeAndApplyRoundedCorners L base radius
              (previewBaseSize (or_default (fst m) 512) (or_default (snd m) 512)) 192 False = Inr p192"
      "resizeAndApplyRoundedCorners L base radius
              (previewBaseSize (or_default (fst m) 512) (or_default (snd m) 512)) 512 False = Inr p512"
    and ogp: "sharp_resize_png L base 1200 630 contain_options = Inr ogp"
    and arch: "generateAsync L
           (complete_archive p16 p32 p48 p180 p192 p512 ogp ico manifest readme) = Inr zb"
    and zb: "ZipResponse zipBuffer = ZipResponse zb"
    unfolding radius_def by blast
  let ?zipfile = "complete_archive p16 p32 p48 p180 p192 p512 ogp ico manifest readme"
  let ?pb = "previewBaseSize (or_default (fst m) 512) (or_default (snd m) 512)"
  have entry: "\<exists>resized png.
          sharp_resize_raw L base sz sz
            \<lparr>fit = Cover, background = None, kernel = Some Lanczos3\<rparr> = Inr resized
        \<and> sharp_raw_png L
            (applyRoundedCorners (raw_data resized) (info_width resized) (info_height resized)
               (effectiveRadius radius ?pb sz sz (info_width resized) (info_height resized)))
            (info_width resized) (info_height resized) = Inr png
        \<and> map_of ?zipfile path = Some (Binary png)"
    if "resizeAndApplyRoundedCorners L base radius ?pb sz False = Inr p"
      "map_of ?zipfile path = Some (Binary p)" for sz p path
    using resizeAndApplyRoundedCorners_cover [OF that(1)] that(2) by blast
  have look: "map_of ?zipfile ''public/favicon-16x16.png'' = Some (Binary p16)"
    "map_of ?zipfile ''public/favicon-32x32.png'' = Some (Binary p32)"
    "map_of ?zipfile ''public/favicon-48x48.png'' = Some (Binary p48)"
    "map_of ?zipfile ''public/apple-touch-icon.png'' = Some (Binary p180)"
    "map_of ?zipfile ''public/android-chrome-192x192.png'' = Some (Binary p192)"
    "map_of ?zipfile ''public/android-chrome-512x512.png'' = Some (Binary p512)"
    "map_of ?zipfile ''src/app/icon.png'' = Some (Binary p32)"
    "map_of ?zipfile ''src/app/apple-icon.png'' = Some (Binary p180)"
    by (simp_all add: complete_archive_def)
  have squares: "\<forall>(path, sz) \<in> set square_variants. \<exists>resized png.
          sharp_resize_raw L base sz sz
            \<lparr>fit = Cover, background = None, kernel = Some Lanczos3\<rparr> = Inr resized
        \<and> sharp_raw_png L
            (applyRoundedCorners (raw_data resized) (info_width resized) (info_height resized)
               (effectiveRadius radius ?pb sz sz (info_width resized) (info_height resized)))
            (info_width resized) (info_height resized) = Inr png
        \<and> map_of ?zipfile path = Some (Binary png)"
    unfolding square_variants_def PUBLIC_SIZES_def APP_SIZES_def
    using entry [OF v(1) look(1)] entry [OF v(2) look(2)] entry [OF v(3) look(3)]
      entry [OF v(4) look(4)] entry [OF v(5) look(5)] entry [OF v(6) look(6)]
      entry [OF v(2) look(7)] entry [OF v(4) look(8)]
    by simp
  have preview: "\<exists>ogpImage.
          sharp_resize_png L base 1200 630
            \<lparr>fit = Contain, background = Some (0, 0, 0, 0), kernel = Some Lanczos3\<rparr>
            = Inr ogpImage
        \<and> map_of ?zipfile ''public/opengraph-image.png'' = Some (Binary ogpImage)"
    using ogp by (simp add: contain_options_def complete_archive_def)
  from arch zb have arch': "generateAsync L ?zipfile = Inr zipBuffer" by simp
  have names: "map fst ?zipfile = all_entry_names"
    by (simp add: complete_archive_def all_entry_names_def)
  show ?thesis
    using req m base arch' names preview squares unfolding radius_def by blast
qed

text \<open>
  With libraries whose resizer answers every request with a white tile of 4 by 4 pixels,
  a source of 512 by 512 and a request of 12: the response is the concatenation of the
  entries, the preview is in it as the resizer gave it, the 16 pixel icon has lost the
  alpha of its four corner pixels (radius 1), and the 32 and 180 pixel icons have kept
  the alpha of their four centre pixels only (radius 2, the clamp).
\<close>

theorem variants_fit_and_masking_witness:
  "POST tile_libs (Inr (sample_form ''image/png'' 1000 (Some ''12''))) = ZipResponse tile_response
   \<and> (\<exists>zipfile. concat (map entry_bytes zipfile) = tile_response
        \<and> map fst zipfile = all_entry_names
        \<and> map_of zipfile ''public/opengraph-image.png'' = Some (Binary [0, 0, 0, 0])
        \<and> map_of zipfile ''public/favicon-16x16.png'' = Some (Binary corner_tile)
        \<and> map_of zipfile ''public/favicon-32x32.png'' = Some (Binary masked_tile)
        \<and> map_of zipfile ''src/app/apple-icon.png'' = Some (Binary masked_tile))
   \<and> applyRoundedCorners white_tile 4 4 1 = corner_tile
   \<and> applyRoundedCorners white_tile 4 4 2 = masked_tile
   \<and> corner_tile \<noteq> white_tile
   \<and> masked_tile \<noteq> white_tile"
proof -
  let ?form = "sample_form ''image/png'' 1000 (Some ''12'')"
  let ?tile = "\<lparr>raw_data = white_tile, info_width = 4, info_height = 4\<rparr>"
  obtain formData f m base zipfile ogpImage where
    form: "Inr ?form = (Inr formData :: thrown + form)"
    and m: "sharp_metadata tile_libs (file_bytes (f :: upload)) = Inr m"
    and arch: "generateAsync tile_libs zipfile = Inr tile_response"
    and names: "map fst zipfile = all_entry_names"
    and preview: "sharp_resize_png tile_libs base 1200 630
            \<lparr>fit = Contain, background = Some (0, 0, 0, 0), kernel = Some Lanczos3\<rparr>
            = Inr ogpImage"
      "map_of zipfile ''public/opengraph-image.png'' = Some (Binary ogpImage)"
    and squares: "\<forall>(path, sz) \<in> set square_variants. \<exists>resized png.
          sharp_resize_raw tile_libs base sz sz
            \<lparr>fit = Cover, background = None, kernel = Some Lanczos3\<rparr> = Inr resized
        \<and> sharp_raw_png tile_libs
            (applyRoundedCorners (raw_data resized) (info_width resized) (info_height resized)
               (effectiveRadius
                  (fin_value (requested_radius
                     (Number (StringToNumber tile_libs) (radius_field formData))))
                  (previewBaseSize (or_default (fst m) 512) (or_default (snd m) 512))
                  sz sz (info_width resized) (info_height resized)))
            (info_width resized) (info_height resized) = Inr png
        \<and> map_of zipfile path = Some (Binary png)"
  proof -
    from variants_fit_and_masking [OF tile_POST] show ?thesis
      by (elim exE conjE) (rule that, assumption+)
  qed
  from form have formData: "formData = ?form"
    by simp
  from m have m_eq: "m = (Some 512, Some 512)"
    by (simp add: tile_libs_simps)
  have rad: "fin_value (requested_radius
                (Number (StringToNumber tile_libs) (radius_field formData))) = 12"
    unfolding formData
    by (rule tile_handler_radius(1) [unfolded handler_radius_def])
  have pb: "previewBaseSize (or_default (fst m) 512) (or_default (snd m) 512) = 192"
    unfolding m_eq by (simp add: previewBaseSize_def or_default_def)
  have entry: "map_of zipfile path =
      Some (Binary (applyRoundedCorners white_tile 4 4 (effectiveRadius 12 192 sz sz 4 4)))"
    if mem: "(path, sz) \<in> set square_variants" for path sz
  proof -
    from bspec [OF squares mem] have "\<exists>resized png.
          sharp_resize_raw tile_libs base sz sz
            \<lparr>fit = Cover, background = None, kernel = Some Lanczos3\<rparr> = Inr resized
        \<and> sharp_raw_png tile_libs
            (applyRoundedCorners (raw_data resized) (info_width resized) (info_height resized)
               (effectiveRadius 12 192 sz sz (info_width resized) (info_height resized)))
            (info_width resized) (info_height resized) = Inr png
        \<and> map_of zipfile path = Some (Binary png)"
      by (simp add: rad pb)
    then obtain resized png where
      r: "sharp_resize_raw tile_libs base sz sz
            \<lparr>fit = Cover, background = None, kernel = Some Lanczos3\<rparr> = Inr resized"
      and e: "sharp_raw_png tile_libs
            (applyRoundedCorners (raw_data resized) (info_width resized) (info_height resized)
               (effectiveRadius 12 192 sz sz (info_width resized) (info_height resized)))
            (info_width resized) (info_height resized) = Inr png"
      and l: "map_of zipfile path = Some (Binary png)"
      by blast
    from r have "resized = ?tile"
      by (simp add: tile_libs_simps)
    with e l show ?thesis
      by (simp add: tile_libs_simps)
  qed
  have p: "map_of zipfile ''public/opengraph-image.png'' = Some (Binary [0, 0, 0, 0])"
    using preview by (simp add: tile_libs_simps)
  have e16: "map_of zipfile ''public/favicon-16x16.png'' = Some (Binary corner_tile)"
    using entry [of "''public/favicon-16x16.png''" 16]
    by (simp add: square_variants_def PUBLIC_SIZES_def APP_SIZES_def tile_radius tile_masks)
  have e32: "map_of zipfile ''public/favicon-32x32.png'' = Some (Binary masked_tile)"
    using entry [of "''public/favicon-32x32.png''" 32]
    by (simp add: square_variants_def PUBLIC_SIZES_def APP_SIZES_def tile_radius tile_masks)
  have e180: "map_of zipfile ''src/app/apple-icon.png'' = Some (Binary masked_tile)"
    using entry [of "''src/app/apple-icon.png''" 180]
    by (simp add: square_variants_def PUBLIC_SIZES_def APP_SIZES_def tile_radius tile_masks)
  from arch have bytes: "concat (map entry_bytes zipfile) = tile_response"
    by (simp add: tile_libs_simps)
  have differ: "corner_tile \<noteq> white_tile" "masked_tile \<noteq> white_tile"
    by code_simp+
  have "\<exists>zipfile. concat (map entry_bytes zipfile) = tile_response
        \<and> map fst zipfile = all_entry_names
        \<and> map_of zipfile ''public/opengraph-image.png'' = Some (Binary [0, 0, 0, 0])
        \<and> map_of zipfile ''public/favicon-16x16.png'' = Some (Binary corner_tile)
        \<and> map_of zipfile ''public/favicon-32x32.png'' = Some (Binary masked_tile)
        \<and> map_of zipfile ''src/app/apple-icon.png'' = Some (Binary masked_tile)"
    using bytes names p e16 e32 e180 by blast
  with tile_POST tile_masks differ show ?thesis
    by blast
qed

end
